theory Spec2Isabelle
  imports Complex_Main "HOL-Library.Word" "HOL-Library.Log_Nat"
begin

section \<open>Point inside test by ray casting (Point\_inside\_vertical\_ray\_cast.h)\<close>

text \<open>
  The number types are fixed by the template parameters of the class: the coordinates of
  a point have the kernel's type \<open>FT\<close>, those of \<open>tree.bbox()\<close> the type of the tree's
  bounding box.  Every value of either type is a number, an element of an ordered field
  \<open>'a\<close>, and the comparisons of the class compare these numbers.  The arithmetic of the
  two types is not that of the field (a floating-point type rounds and overflows); it is
  modelled separately, see \<open>Number_types\<close> below.  Points, vectors, rays and the
  bounding box are reduced to the components the class reads.
\<close>

datatype Bounded_side = ON_UNBOUNDED_SIDE | ON_BOUNDARY | ON_BOUNDED_SIDE

text \<open>\<open>boost::logic::tribool\<close>: false, true or indeterminate.\<close>

datatype tribool = tribool_false | tribool_true | tribool_indeterminate

record 'a Point =
  x :: 'a
  y :: 'a
  z :: 'a

record 'a Vector =
  dx :: 'a
  dy :: 'a
  dz :: 'a

record 'a Ray =
  source :: "'a Point"
  direction :: "'a Vector"

record 'a Bounding_box =
  xmin :: 'a
  ymin :: 'a
  zmin :: 'a
  xmax :: 'a
  ymax :: 'a
  zmax :: 'a

text \<open>
  The pair \<open>status\<close> of \<open>is_inside_ray_tree_traversal\<close>: the tribool and the
  \<open>std::size_t\<close> number of facets crossed.
\<close>

type_synonym status = "tribool \<times> 64 word"

text \<open>
  The class computes with numbers in one expression only,
  \<open>2*point.z() < tree.bbox().zmax()+tree.bbox().zmin()\<close>.  The product is computed in
  the kernel's type \<open>FT\<close> and the sum in the type of the box's coordinates; the result
  of either is a number or, where the type is a floating-point type and the operation
  overflows, an infinity.  (The operands are numbers, so no operation yields a NaN.)
  The two operations are parameters: \<open>twice v\<close> is \<open>2*v\<close> as \<open>FT\<close> computes it,
  \<open>box_sum a b\<close> is \<open>a+b\<close> as the box's type computes it.  \<open>number_less\<close> is \<open><\<close>
  on the results.
\<close>

datatype 'a number = Number 'a | Plus_infinity | Minus_infinity

fun number_less :: "('a::linorder) number \<Rightarrow> 'a number \<Rightarrow> bool" where
  "number_less (Number a) (Number b) \<longleftrightarrow> a < b"
| "number_less (Number a) Plus_infinity \<longleftrightarrow> True"
| "number_less (Number a) Minus_infinity \<longleftrightarrow> False"
| "number_less Plus_infinity b \<longleftrightarrow> False"
| "number_less Minus_infinity (Number b) \<longleftrightarrow> True"
| "number_less Minus_infinity Plus_infinity \<longleftrightarrow> True"
| "number_less Minus_infinity Minus_infinity \<longleftrightarrow> False"

record 'a Number_types =
  twice :: "'a \<Rightarrow> 'a number"
  box_sum :: "'a \<Rightarrow> 'a \<Rightarrow> 'a number"

text \<open>
  The AABB tree is a template parameter.  The class uses two of its members: \<open>bbox()\<close>
  and \<open>traversal(ray, traits)\<close>.  The traversal traits
  (\<open>Ray_3_Triangle_3_traversal_traits\<close>, instantiated with the tag
  \<open>ray_is_vertical\<close>) hold a reference to \<open>status\<close> and overwrite it while the tree
  is walked; so the traversal is a function of the tag, the ray and the status it starts
  from, returning the status it leaves.  The tree's type also fixes the number types
  (its traits name the kernel and the bounding box); their arithmetic is kept with it.
\<close>

record 'a AABBTree =
  bbox :: "'a Bounding_box"
  traversal :: "bool \<Rightarrow> 'a Ray \<Rightarrow> status \<Rightarrow> status"
  number_types :: "'a Number_types"

text \<open>
  The random source: \<open>CGAL::Random rg(seed)\<close> followed by
  \<open>Random_points_on_sphere_3<Point> random_point(1., rg)\<close> gives a generator state;
  \<open>*random_point++\<close> yields the current point and advances the generator.
  Both belong to other packages of the library and are parameters here.
\<close>

record ('a, 'g) Random_source =
  seeded :: "32 word \<Rightarrow> 'g"
  draw :: "'g \<Rightarrow> 'a Point \<times> 'g"

definition seed :: "32 word" where
  "seed = 1340818006"

text \<open>
  Modelled from the spec: the kernel's construction functors are not part of the class
  (the defaults are \<open>Kernel().construct_ray_3_object()\<close> and
  \<open>Kernel().construct_vector_3_object()\<close>).  They build a ray from an origin and a
  direction, a vector from three coordinates, and the vector from \<open>CGAL::ORIGIN\<close>
  to a point.
\<close>

definition ray_functor :: "'a Point \<Rightarrow> 'a Vector \<Rightarrow> 'a Ray" where
  "ray_functor p v = \<lparr>source = p, direction = v\<rparr>"

definition vector_functor :: "'a \<Rightarrow> 'a \<Rightarrow> 'a \<Rightarrow> 'a Vector" where
  "vector_functor a b c = \<lparr>dx = a, dy = b, dz = c\<rparr>"

definition vector_functor_origin :: "'a Point \<Rightarrow> 'a Vector" where
  "vector_functor_origin p = \<lparr>dx = x p, dy = y p, dz = z p\<rparr>"

text \<open>
  \<open>is_inside_ray_tree_traversal<ray_is_vertical>(ray, tree)\<close>: the status starts as
  (indeterminate, 0) on every call, the tree is traversed, and the status left is read.
  \<open>None\<close> is the empty \<open>boost::optional\<close>.
\<close>

definition status_to_side :: "status \<Rightarrow> Bounded_side option" where
  "status_to_side st =
     (if fst st \<noteq> tribool_indeterminate then
        (if fst st = tribool_true then
           (if and (snd st) 1 = 1 then Some ON_BOUNDED_SIDE else Some ON_UNBOUNDED_SIDE)
         else Some ON_BOUNDARY)
      else None)"

definition is_inside_ray_tree_traversal ::
  "bool \<Rightarrow> 'a Ray \<Rightarrow> 'a AABBTree \<Rightarrow> Bounded_side option" where
  "is_inside_ray_tree_traversal ray_is_vertical ray tree =
     status_to_side (traversal tree ray_is_vertical ray (tribool_indeterminate, 0))"

text \<open>
  The \<open>do ... while (!res)\<close> loop of \<open>operator()\<close>.  It has no exit but a determinate
  traversal, so it is a partial function: \<open>None\<close> is a loop that runs forever.
  Beside the result, the model returns the rays handed to \<open>tree.traversal\<close>, in order
  (\<open>rays\<close> holds those traversed so far).
\<close>

partial_function (option) retry_loop ::
  "('a, 'g) Random_source \<Rightarrow> 'a Point \<Rightarrow> 'a AABBTree \<Rightarrow> 'g \<Rightarrow> 'a Ray list
     \<Rightarrow> (Bounded_side \<times> 'a Ray list) option" where
  "retry_loop R point tree g rays =
     (case is_inside_ray_tree_traversal False
             (ray_functor point (vector_functor_origin (fst (draw R g)))) tree of
        Some r \<Rightarrow>
          Some (r, rays @ [ray_functor point (vector_functor_origin (fst (draw R g)))])
      | None \<Rightarrow>
          retry_loop R point tree (snd (draw R g))
            (rays @ [ray_functor point (vector_functor_origin (fst (draw R g)))]))"

text \<open>The bounding-box test at the head of \<open>operator()\<close>: true when the point is rejected.\<close>

definition outside_bbox :: "('a::linordered_field) Point \<Rightarrow> 'a Bounding_box \<Rightarrow> bool" where
  "outside_bbox point b \<longleftrightarrow>
     x point < xmin b \<or> x point > xmax b
     \<or> y point < ymin b \<or> y point > ymax b
     \<or> z point < zmin b \<or> z point > zmax b"

text \<open>
  The first, vertical query ray of \<open>operator()\<close>.  The product \<open>2*point.z()\<close> and the
  sum \<open>zmax()+zmin()\<close> are computed by the number types, and the results compared.
\<close>

definition vertical_query :: "('a::linordered_field) Point \<Rightarrow> 'a AABBTree \<Rightarrow> 'a Ray" where
  "vertical_query point tree =
     ray_functor point
       (vector_functor 0 0
          (if number_less (twice (number_types tree) (z point))
                (box_sum (number_types tree) (zmax (bbox tree)) (zmin (bbox tree)))
           then - 1 else 1))"

text \<open>
  \<open>operator()\<close>, the point inside test.  The result is \<open>None\<close> when the retry loop
  never ends; otherwise the side returned and the rays traversed.
\<close>

definition point_inside ::
  "('a::linordered_field, 'g) Random_source \<Rightarrow> 'a Point \<Rightarrow> 'a AABBTree
     \<Rightarrow> (Bounded_side \<times> 'a Ray list) option" where
  "point_inside R point tree =
     (if outside_bbox point (bbox tree) then Some (ON_UNBOUNDED_SIDE, [])
      else
        (case is_inside_ray_tree_traversal True (vertical_query point tree) tree of
           Some r \<Rightarrow> Some (r, [vertical_query point tree])
         | None \<Rightarrow>
             retry_loop R point tree (seeded R seed) [vertical_query point tree]))"


text \<open>
  Notions used to state the properties of the retry loop: the generator after \<open>k\<close>
  draws from the state \<open>g\<close>, the query ray the loop builds in its \<open>k\<close>-th round when it
  is entered with the generator in state \<open>g\<close>, and the status the \<open>k\<close>-th retry
  traversal of \<open>operator()\<close> leaves.
\<close>

definition generator_after :: "('a, 'g) Random_source \<Rightarrow> 'g \<Rightarrow> nat \<Rightarrow> 'g" where
  "generator_after R g k = ((\<lambda>h. snd (draw R h)) ^^ k) g"

definition retry_ray :: "('a, 'g) Random_source \<Rightarrow> 'a Point \<Rightarrow> 'g \<Rightarrow> nat \<Rightarrow> 'a Ray" where
  "retry_ray R point g k =
     ray_functor point (vector_functor_origin (fst (draw R (generator_after R g k))))"

definition retry_status ::
  "('a, 'g) Random_source \<Rightarrow> 'a Point \<Rightarrow> 'a AABBTree \<Rightarrow> nat \<Rightarrow> status" where
  "retry_status R point tree k =
     traversal tree False (retry_ray R point (seeded R seed) k) (tribool_indeterminate, 0)"

text \<open>
  A sequence of calls of \<open>operator()\<close>: the function object is \<open>const\<close> and keeps
  nothing from one call to the next.
\<close>

definition queries ::
  "('a::linordered_field, 'g) Random_source \<Rightarrow> ('a Point \<times> 'a AABBTree) list
     \<Rightarrow> (Bounded_side \<times> 'a Ray list) option list" where
  "queries R qs = map (\<lambda>q. point_inside R (fst q) (snd q)) qs"

text \<open>
  For comparison, the specification's description of the random source: one generator
  for all queries, seeded once and not seeded again per query.  With it the retry loop of
  a query starts with the generator as the previous query left it (\<open>g\<close> is that state,
  and a query that traversed \<open>n\<close> rays has drawn \<open>n - 1\<close> points).
\<close>

definition point_inside_shared ::
  "('a::linordered_field, 'g) Random_source \<Rightarrow> 'g \<Rightarrow> 'a Point \<Rightarrow> 'a AABBTree
     \<Rightarrow> (Bounded_side \<times> 'a Ray list) option" where
  "point_inside_shared R g point tree =
     (if outside_bbox point (bbox tree) then Some (ON_UNBOUNDED_SIDE, [])
      else
        (case is_inside_ray_tree_traversal True (vertical_query point tree) tree of
           Some r \<Rightarrow> Some (r, [vertical_query point tree])
         | None \<Rightarrow> retry_loop R point tree g [vertical_query point tree]))"

fun queries_shared ::
  "('a::linordered_field, 'g) Random_source \<Rightarrow> 'g \<Rightarrow> ('a Point \<times> 'a AABBTree) list
     \<Rightarrow> (Bounded_side \<times> 'a Ray list) option list" where
  "queries_shared R g [] = []"
| "queries_shared R g (q # qs) =
     (case point_inside_shared R g (fst q) (snd q) of
        None \<Rightarrow> [None]
      | Some res \<Rightarrow>
          Some res # queries_shared R (generator_after R g (length (snd res) - 1)) qs)"

section \<open>Evaluation of a classification (Evaluation.h)\<close>

text \<open>
  Indexing a \<open>std::vector\<close> outside its range is undefined behaviour.  The model makes
  every such access an error value: \<open>Confusion_out_of_bounds\<close> for the confusion
  matrix, \<open>Input_out_of_bounds\<close> for the index ranges handed to \<open>append\<close>.
\<close>

datatype error = Confusion_out_of_bounds | Input_out_of_bounds

text \<open>
  The values of type \<open>float\<close> the class computes are quotients of non-negative
  numbers: not a number, plus infinity, or a finite non-negative number.
\<close>

datatype float32 = NaN | Infinity | Finite rat

text \<open>
  Rounding of a non-negative rational to the nearest number with a 24 bit significand,
  ties to even (IEEE 754 binary32; all numbers that occur are quotients of integers
  between 1 and \<open>2^64\<close>, so exponents stay in the normal range).
  \<open>binade q\<close> is the exponent \<open>e\<close> with \<open>2^e \<le> q < 2^(e+1)\<close>.
\<close>

definition round_half_even :: "rat \<Rightarrow> int" where
  "round_half_even m =
     (let f = \<lfloor>m\<rfloor>; r = m - of_int f
      in if r < 1 / 2 then f else if 1 / 2 < r then f + 1
         else if even f then f else f + 1)"

definition binade :: "rat \<Rightarrow> int" where
  "binade q =
     (let a = fst (quotient_of q); b = snd (quotient_of q); d = bitlen a - bitlen b
      in if of_int b * 2 powi d \<le> (of_int a :: rat) then d else d - 1)"

definition round_to_float :: "rat \<Rightarrow> rat" where
  "round_to_float q =
     (if q = 0 then 0
      else of_int (round_half_even (q / 2 powi (binade q - 23))) * 2 powi (binade q - 23))"

text \<open>The conversion \<open>float(n)\<close> of a \<open>std::size_t\<close>.\<close>

definition float_of_size_t :: "64 word \<Rightarrow> rat" where
  "float_of_size_t n = round_to_float (of_nat (unat n))"

text \<open>
  The expression \<open>a / float(b)\<close> with \<open>a\<close> and \<open>b\<close> of type \<open>std::size_t\<close>:
  \<open>a\<close> is converted to \<open>float\<close> as well and the quotient is rounded; a zero divisor
  gives not a number for a zero dividend and infinity otherwise.
\<close>

definition div_by_float :: "64 word \<Rightarrow> 64 word \<Rightarrow> float32" where
  "div_by_float a b =
     (if float_of_size_t b = 0 then (if float_of_size_t a = 0 then NaN else Infinity)
      else Finite (round_to_float (float_of_size_t a / float_of_size_t b)))"

text \<open>
  The class: the label set (a sequence of label handles \<open>'l\<close>), the map from handles
  to indices, and the confusion matrix of \<open>std::size_t\<close> counters.
\<close>

record 'l Evaluation =
  m_labels :: "'l list"
  m_map_labels :: "'l \<rightharpoonup> nat"
  m_confusion :: "64 word list list"

text \<open>\<open>std::vector::resize(n, v)\<close>.\<close>

definition resize :: "nat \<Rightarrow> 'a \<Rightarrow> 'a list \<Rightarrow> 'a list" where
  "resize n v xs = take n xs @ replicate (n - length xs) v"

definition init :: "'l Evaluation \<Rightarrow> 'l Evaluation" where
  "init e =
     e\<lparr>m_map_labels :=
         fold (\<lambda>i m. m(m_labels e ! i \<mapsto> i)) [0..<length (m_labels e)] (m_map_labels e),
       m_confusion :=
         map (resize (length (m_labels e)) 0) (resize (length (m_labels e)) [] (m_confusion e))\<rparr>"

text \<open>The constructor \<open>Evaluation (labels)\<close>: empty members, then \<open>init()\<close>.\<close>

definition Evaluation_new :: "'l list \<Rightarrow> 'l Evaluation" where
  "Evaluation_new labels =
     init \<lparr>m_labels = labels, m_map_labels = Map.empty, m_confusion = []\<rparr>"

text \<open>Reading \<open>m_confusion[i][j]\<close>, and \<open>++ m_confusion[i][j]\<close>.\<close>

definition cell :: "64 word list list \<Rightarrow> nat \<Rightarrow> nat \<Rightarrow> error + 64 word" where
  "cell m i j =
     (if i < length m \<and> j < length (m ! i) then Inr (m ! i ! j)
      else Inl Confusion_out_of_bounds)"

definition incr_cell :: "64 word list list \<Rightarrow> nat \<Rightarrow> nat \<Rightarrow> error + 64 word list list" where
  "incr_cell m i j =
     (if i < length m \<and> j < length (m ! i) then Inr (m[i := (m ! i)[j := m ! i ! j + 1]])
      else Inl Confusion_out_of_bounds)"

text \<open>
  The conversion \<open>std::size_t(v)\<close> of an \<open>int\<close> (32 bits): the sign is extended
  to 64 bits and the result is read as unsigned.
\<close>

definition size_t_of_int :: "32 word \<Rightarrow> nat" where
  "size_t_of_int v = unat (scast v :: 64 word)"

text \<open>
  The loop of \<open>append\<close> over \<open>i < ground_truth.size()\<close>; the two ranges hold the
  values after \<open>static_cast<int>\<close>.  Reading \<open>result[i]\<close> past the end of \<open>result\<close>
  is the second equation.
\<close>

fun append_items ::
  "64 word list list \<Rightarrow> 32 word list \<Rightarrow> 32 word list \<Rightarrow> error + 64 word list list" where
  "append_items m [] result = Inr m"
| "append_items m (gt # ground_truth) [] = Inl Input_out_of_bounds"
| "append_items m (gt # ground_truth) (res # result) =
     (if gt = - 1 \<or> res = - 1 then append_items m ground_truth result
      else
        (case incr_cell m (size_t_of_int res) (size_t_of_int gt) of
           Inl err \<Rightarrow> Inl err
         | Inr m' \<Rightarrow> append_items m' ground_truth result))"

definition append_eval ::
  "'l Evaluation \<Rightarrow> 32 word list \<Rightarrow> 32 word list \<Rightarrow> error + 'l Evaluation" where
  "append_eval e ground_truth result =
     (case append_items (m_confusion e) ground_truth result of
        Inl err \<Rightarrow> Inl err
      | Inr m' \<Rightarrow> Inr (e\<lparr>m_confusion := m'\<rparr>))"

text \<open>
  \<open>label_has_ground_truth\<close>: the loop over the rows, leaving at the first non-zero
  entry of the column.
\<close>

fun has_ground_truth_rows :: "64 word list list \<Rightarrow> nat \<Rightarrow> nat list \<Rightarrow> error + bool" where
  "has_ground_truth_rows m label_idx [] = Inr False"
| "has_ground_truth_rows m label_idx (i # rows) =
     (case cell m i label_idx of
        Inl err \<Rightarrow> Inl err
      | Inr c \<Rightarrow> if c \<noteq> 0 then Inr True else has_ground_truth_rows m label_idx rows)"

definition label_has_ground_truth :: "'l Evaluation \<Rightarrow> nat \<Rightarrow> error + bool" where
  "label_has_ground_truth e label_idx =
     has_ground_truth_rows (m_confusion e) label_idx [0..<length (m_labels e)]"

text \<open>
  The summation loops \<open>total += m_confusion[i][j]\<close>: the cells are read in the order
  given and added to the \<open>std::size_t\<close> accumulator.
\<close>

fun sum_cells :: "64 word list list \<Rightarrow> (nat \<times> nat) list \<Rightarrow> 64 word \<Rightarrow> error + 64 word" where
  "sum_cells m [] tot = Inr tot"
| "sum_cells m (ij # cells) tot =
     (case cell m (fst ij) (snd ij) of
        Inl err \<Rightarrow> Inl err
      | Inr c \<Rightarrow> sum_cells m cells (tot + c))"

text \<open>
  \<open>m_map_labels[label]\<close>: the map is mutable and \<open>operator[]\<close> inserts the index 0
  for a handle it does not hold; that entry reads as 0 ever after, so the read-side
  operations do not return the map.
\<close>

definition label_index :: "'l Evaluation \<Rightarrow> 'l \<Rightarrow> nat" where
  "label_index e label = (case m_map_labels e label of Some idx \<Rightarrow> idx | None \<Rightarrow> 0)"

definition precision :: "'l Evaluation \<Rightarrow> 'l \<Rightarrow> error + float32" where
  "precision e label =
     (let idx = label_index e label in
      case label_has_ground_truth e idx of
        Inl err \<Rightarrow> Inl err
      | Inr False \<Rightarrow> Inr NaN
      | Inr True \<Rightarrow>
          (case sum_cells (m_confusion e) (map (\<lambda>i. (idx, i)) [0..<length (m_labels e)]) 0 of
             Inl err \<Rightarrow> Inl err
           | Inr tot \<Rightarrow>
               if tot = 0 then Inr (Finite 0)
               else
                 (case cell (m_confusion e) idx idx of
                    Inl err \<Rightarrow> Inl err
                  | Inr tp \<Rightarrow> Inr (div_by_float tp tot))))"

definition recall :: "'l Evaluation \<Rightarrow> 'l \<Rightarrow> error + float32" where
  "recall e label =
     (let idx = label_index e label in
      case label_has_ground_truth e idx of
        Inl err \<Rightarrow> Inl err
      | Inr False \<Rightarrow> Inr NaN
      | Inr True \<Rightarrow>
          (case sum_cells (m_confusion e) (map (\<lambda>i. (i, idx)) [0..<length (m_labels e)]) 0 of
             Inl err \<Rightarrow> Inl err
           | Inr tot \<Rightarrow>
               (case cell (m_confusion e) idx idx of
                  Inl err \<Rightarrow> Inl err
                | Inr tp \<Rightarrow> Inr (div_by_float tp tot))))"

definition intersection_over_union :: "'l Evaluation \<Rightarrow> 'l \<Rightarrow> error + float32" where
  "intersection_over_union e label =
     (let idx = label_index e label in
      case sum_cells (m_confusion e)
             (concat (map (\<lambda>i. (i, idx) # (if i \<noteq> idx then [(idx, i)] else []))
                [0..<length (m_labels e)])) 0 of
        Inl err \<Rightarrow> Inl err
      | Inr tot \<Rightarrow>
          (case cell (m_confusion e) idx idx of
             Inl err \<Rightarrow> Inl err
           | Inr tp \<Rightarrow> Inr (div_by_float tp tot)))"

text \<open>
  \<open>accuracy\<close>: the diagonal is summed into \<open>true_positives\<close> and all cells, row by
  row, into \<open>total\<close>.
\<close>

definition accuracy :: "'l Evaluation \<Rightarrow> error + float32" where
  "accuracy e =
     (case sum_cells (m_confusion e) (map (\<lambda>i. (i, i)) [0..<length (m_labels e)]) 0 of
        Inl err \<Rightarrow> Inl err
      | Inr true_positives \<Rightarrow>
          (case sum_cells (m_confusion e)
                  (concat (map (\<lambda>i. map (\<lambda>j. (i, j)) [0..<length (m_labels e)])
                     [0..<length (m_labels e)])) 0 of
             Inl err \<Rightarrow> Inl err
           | Inr tot \<Rightarrow> Inr (div_by_float true_positives tot)))"

text \<open>
  Notions used to state the properties of the class: a confusion matrix with \<open>n\<close> rows
  of \<open>n\<close> counters, which is what \<open>init\<close> builds, and a label index that is the
  sentinel \<open>-1\<close> or lies in \<open>[0, n)\<close>.
\<close>

definition square :: "64 word list list \<Rightarrow> nat \<Rightarrow> bool" where
  "square m n \<longleftrightarrow> length m = n \<and> list_all (\<lambda>row. length row = n) m"

definition valid_index :: "nat \<Rightarrow> 32 word \<Rightarrow> bool" where
  "valid_index n v \<longleftrightarrow> v = - 1 \<or> (0 \<le> sint v \<and> sint v < int n)"

text \<open>
  Two more notions: a matrix whose entries off the diagonal are zero, and the
  \<open>std::size_t\<close> sum of the diagonal, which is \<open>true_positives\<close> in \<open>accuracy\<close>.
\<close>

definition diagonal :: "64 word list list \<Rightarrow> nat \<Rightarrow> bool" where
  "diagonal m n \<longleftrightarrow> (\<forall>i\<in>{0..<n}. \<forall>j\<in>{0..<n}. i \<noteq> j \<longrightarrow> m ! i ! j = 0)"

definition true_positives :: "64 word list list \<Rightarrow> nat \<Rightarrow> 64 word" where
  "true_positives m n = sum_list (map (\<lambda>i. m ! i ! i) [0..<n])"

section \<open>Reading a LAS point set (read\_las\_point\_set.h)\<close>

text \<open>
  A point as the \<open>liblas\<close> reader delivers it: three coordinates, the return number
  and the three 16 bit colour components of \<open>GetColor()\<close>.  The stream is the sequence
  of points that \<open>ReadNextPoint()\<close> yields before it returns false.
\<close>

record 'c las_point =
  GetX :: 'c
  GetY :: 'c
  GetZ :: 'c
  GetReturnNumber :: "16 word"
  GetRed :: "16 word"
  GetGreen :: "16 word"
  GetBlue :: "16 word"

text \<open>
  Modelled from the spec: \<open>CGAL::Point_set_3\<close> is not among the sources.  A point set
  is a sequence of points with named per-point property channels; a channel of type
  \<open>unsigned char\<close> is its default value and one value for each point.
  \<open>add_property_map\<close> creates a channel filled with the default unless one of that
  name exists, \<open>insert\<close> appends a point (every channel gets its default for it) and
  returns its position, \<open>put\<close> and \<open>get\<close> write and read one value, and
  \<open>remove_property_map\<close> drops the channel.
\<close>

record 'c Point_set =
  ps_points :: "('c \<times> 'c \<times> 'c) list"
  ps_maps :: "string \<rightharpoonup> 8 word \<times> 8 word list"

definition add_property_map :: "string \<Rightarrow> 8 word \<Rightarrow> 'c Point_set \<Rightarrow> 'c Point_set" where
  "add_property_map name dflt ps =
     (case ps_maps ps name of
        Some _ \<Rightarrow> ps
      | None \<Rightarrow>
          ps\<lparr>ps_maps := (ps_maps ps)(name \<mapsto> (dflt, replicate (length (ps_points ps)) dflt))\<rparr>)"

definition insert_point :: "'c \<times> 'c \<times> 'c \<Rightarrow> 'c Point_set \<Rightarrow> 'c Point_set" where
  "insert_point p ps =
     \<lparr>ps_points = ps_points ps @ [p],
      ps_maps = (\<lambda>name. map_option (\<lambda>c. (fst c, snd c @ [fst c])) (ps_maps ps name))\<rparr>"

definition put :: "string \<Rightarrow> nat \<Rightarrow> 8 word \<Rightarrow> 'c Point_set \<Rightarrow> 'c Point_set" where
  "put name it v ps =
     (case ps_maps ps name of
        None \<Rightarrow> ps
      | Some c \<Rightarrow> ps\<lparr>ps_maps := (ps_maps ps)(name \<mapsto> (fst c, (snd c)[it := v]))\<rparr>)"

definition get :: "string \<Rightarrow> nat \<Rightarrow> 'c Point_set \<Rightarrow> 8 word" where
  "get name it ps = (case ps_maps ps name of None \<Rightarrow> 0 | Some c \<Rightarrow> snd c ! it)"

definition remove_property_map :: "string \<Rightarrow> 'c Point_set \<Rightarrow> 'c Point_set" where
  "remove_property_map name ps = ps\<lparr>ps_maps := (ps_maps ps)(name := None)\<rparr>"

text \<open>
  The body of the reading loop: the point is inserted at the end, \<open>it\<close> is its
  position, and the four values are stored as \<open>unsigned char\<close>.
\<close>

definition read_point :: "'c las_point \<Rightarrow> 'c Point_set \<Rightarrow> 'c Point_set" where
  "read_point p ps =
     (let it = length (ps_points ps) in
      put ''blue'' it (ucast (drop_bit 8 (GetBlue p)))
        (put ''green'' it (ucast (drop_bit 8 (GetGreen p)))
           (put ''red'' it (ucast (drop_bit 8 (GetRed p)))
              (put ''echo'' it (ucast (GetReturnNumber p))
                 (insert_point (GetX p, GetY p, GetZ p) ps)))))"

text \<open>
  The loop over the point set that decides what is removed; the pair is
  (\<open>remove_echo\<close>, \<open>remove_colors\<close>), and the loop is left once both are false.
\<close>

fun scan_points :: "'c Point_set \<Rightarrow> nat list \<Rightarrow> bool \<times> bool \<Rightarrow> bool \<times> bool" where
  "scan_points ps [] flags = flags"
| "scan_points ps (it # its) flags =
     (let remove_echo = (if get ''echo'' it ps \<noteq> 0 then False else fst flags);
          remove_colors =
            (if get ''red'' it ps \<noteq> 0 \<or> get ''green'' it ps \<noteq> 0 \<or> get ''blue'' it ps \<noteq> 0
             then False else snd flags)
      in if \<not> remove_echo \<and> \<not> remove_colors then (remove_echo, remove_colors)
         else scan_points ps its (remove_echo, remove_colors))"

definition read_las_point_set :: "'c las_point list \<Rightarrow> 'c Point_set \<Rightarrow> bool \<times> 'c Point_set" where
  "read_las_point_set stream point_set =
     (let ps0 = add_property_map ''blue'' 0
                  (add_property_map ''green'' 0
                     (add_property_map ''red'' 0
                        (add_property_map ''echo'' 0 point_set)));
          ps1 = fold read_point stream ps0;
          flags = scan_points ps1 [0..<length (ps_points ps1)] (True, True);
          ps2 = (if fst flags then remove_property_map ''echo'' ps1 else ps1);
          ps3 = (if snd flags
                 then remove_property_map ''blue''
                        (remove_property_map ''green'' (remove_property_map ''red'' ps2))
                 else ps2)
      in (True, ps3))"

text \<open>
  Notions used to state what the function keeps: the four channel names, the value the
  reading loop stores in a channel for one point, whether each of the four channels the
  point set already holds has one value for every point, and the default and the values
  a channel has after the four calls of \<open>add_property_map\<close>.
\<close>

definition channel_names :: "string list" where
  "channel_names = [''echo'', ''red'', ''green'', ''blue'']"

definition stored :: "string \<Rightarrow> 'c las_point \<Rightarrow> 8 word" where
  "stored name p =
     (if name = ''echo'' then ucast (GetReturnNumber p)
      else if name = ''red'' then ucast (drop_bit 8 (GetRed p))
      else if name = ''green'' then ucast (drop_bit 8 (GetGreen p))
      else ucast (drop_bit 8 (GetBlue p)))"

definition channels_fit :: "'c Point_set \<Rightarrow> bool" where
  "channels_fit ps \<longleftrightarrow>
     list_all (\<lambda>name. case ps_maps ps name of
                        None \<Rightarrow> True
                      | Some c \<Rightarrow> length (snd c) = length (ps_points ps)) channel_names"

definition channel_default :: "'c Point_set \<Rightarrow> string \<Rightarrow> 8 word" where
  "channel_default ps name = (case ps_maps ps name of None \<Rightarrow> 0 | Some c \<Rightarrow> fst c)"

definition channel_before :: "'c Point_set \<Rightarrow> string \<Rightarrow> 8 word list" where
  "channel_before ps name =
     (case ps_maps ps name of
        None \<Rightarrow> replicate (length (ps_points ps)) 0
      | Some c \<Rightarrow> snd c)"

section \<open>Concrete inputs\<close>

text \<open>
  Two instances of the number types.  With an exact number type for the kernel and the
  box, product and sum are those of the field.
\<close>

definition exact_numbers :: "('a::linordered_field) Number_types" where
  "exact_numbers = \<lparr>twice = (\<lambda>v. Number (2 * v)), box_sum = (\<lambda>a b. Number (a + b))\<rparr>"

text \<open>
  With \<open>double\<close> for both (a kernel such as \<open>Simple_cartesian<double>\<close> and the box
  \<open>CGAL::Bbox_3\<close>), the result of an operation on two doubles is the exact result
  rounded to the nearest double, ties to even (IEEE 754 binary64, the default rounding
  mode): a 53 bit significand, exponents from \<open>-1022\<close> (below which the spacing of the
  doubles stays \<open>2^-1074\<close>) to \<open>1023\<close>, and an infinity when the rounded magnitude
  reaches \<open>2^1024\<close>.
\<close>

definition round_to_double :: "rat \<Rightarrow> rat number" where
  "round_to_double q =
     (if q = 0 then Number 0
      else
        (let e = max (binade \<bar>q\<bar>) (- 1022);
             r = of_int (round_half_even (q / 2 powi (e - 52))) * 2 powi (e - 52)
         in if 2 ^ 1024 \<le> r then Plus_infinity
            else if r \<le> - (2 ^ 1024) then Minus_infinity
            else Number r))"

definition double_numbers :: "rat Number_types" where
  "double_numbers =
     \<lparr>twice = (\<lambda>v. round_to_double (2 * v)), box_sum = (\<lambda>a b. round_to_double (a + b))\<rparr>"

text \<open>
  A tree over the box \<open>[0,2]^3\<close> of rationals whose traversal reports three crossings
  for every ray.
\<close>

definition box_0_2 :: "rat Bounding_box" where
  "box_0_2 = \<lparr>xmin = 0, ymin = 0, zmin = 0, xmax = 2, ymax = 2, zmax = 2\<rparr>"

definition tree_three_crossings :: "rat AABBTree" where
  "tree_three_crossings =
     \<lparr>bbox = box_0_2, traversal = (\<lambda>v r st. (tribool_true, 3)),
      number_types = exact_numbers\<rparr>"

text \<open>
  A tree of doubles over a box whose \<open>z\<close> range is \<open>[1, 1 + 2^-52]\<close>, two neighbouring
  doubles, and one whose \<open>z\<close> range is \<open>[2^1023, 2^1023 + 2^1022]\<close>; and a point at
  the lower end of the latter.
\<close>

definition tree_thin_box :: "rat AABBTree" where
  "tree_thin_box =
     \<lparr>bbox = \<lparr>xmin = 0, ymin = 0, zmin = 1, xmax = 2, ymax = 2, zmax = 1 + 1 / 2 ^ 52\<rparr>,
      traversal = (\<lambda>v r st. (tribool_true, 3)),
      number_types = double_numbers\<rparr>"

definition tree_huge_box :: "rat AABBTree" where
  "tree_huge_box =
     \<lparr>bbox = \<lparr>xmin = 0, ymin = 0, zmin = 2 ^ 1023, xmax = 2, ymax = 2,
              zmax = 2 ^ 1023 + 2 ^ 1022\<rparr>,
      traversal = (\<lambda>v r st. (tribool_true, 3)),
      number_types = double_numbers\<rparr>"

definition high_point :: "rat Point" where
  "high_point = \<lparr>x = 1, y = 1, z = 2 ^ 1023\<rparr>"

definition centre :: "rat Point" where
  "centre = \<lparr>x = 1, y = 1, z = 1\<rparr>"


text \<open>
  A random source that counts: its state is a number, seeding gives the seed's value,
  and each draw yields a point with that number as first coordinate.
\<close>

definition counting_source :: "(rat, nat) Random_source" where
  "counting_source = \<lparr>seeded = unat, draw = (\<lambda>g. (\<lparr>x = of_nat g, y = 0, z = 1\<rparr>, g + 1))\<rparr>"

text \<open>
  Trees over the same box: one whose traversal leaves the status untouched for the
  vertical ray and is determinate for every other ray, one that is indeterminate for the
  first retry ray of the counting source as well, and one that never touches the status.
\<close>

definition tree_retry_once :: "rat AABBTree" where
  "tree_retry_once =
     \<lparr>bbox = box_0_2, traversal = (\<lambda>v r st. if v then st else (tribool_true, 1)),
      number_types = exact_numbers\<rparr>"

definition tree_retry_twice :: "rat AABBTree" where
  "tree_retry_twice =
     \<lparr>bbox = box_0_2,
      traversal = (\<lambda>v r st. if v \<or> dx (direction r) = 1340818006 then st else (tribool_true, 1)),
      number_types = exact_numbers\<rparr>"

definition tree_never :: "rat AABBTree" where
  "tree_never =
     \<lparr>bbox = box_0_2, traversal = (\<lambda>v r st. st), number_types = exact_numbers\<rparr>"

definition corner :: "rat Point" where
  "corner = \<lparr>x = 2, y = 0, z = 2\<rparr>"

definition far_away :: "rat Point" where
  "far_away = \<lparr>x = 10, y = 10, z = 10\<rparr>"

text \<open>
  An empty point set and two points of a LAS stream: one with return number 1 and green
  \<open>0x0100\<close>, one whose return number is 0 and whose colour components are below 256.
\<close>

definition empty_point_set :: "rat Point_set" where
  "empty_point_set = \<lparr>ps_points = [], ps_maps = Map.empty\<rparr>"

definition green_point :: "rat las_point" where
  "green_point = \<lparr>GetX = 0, GetY = 0, GetZ = 0, GetReturnNumber = 1,
                   GetRed = 0, GetGreen = 256, GetBlue = 0\<rparr>"

definition plain_point :: "rat las_point" where
  "plain_point = \<lparr>GetX = 1, GetY = 2, GetZ = 3, GetReturnNumber = 0,
                   GetRed = 0, GetGreen = 255, GetBlue = 0\<rparr>"

text \<open>An evaluation over two labels.\<close>

definition two_labels :: "string Evaluation" where
  "two_labels = Evaluation_new [''a'', ''b'']"

text \<open>
  The evaluation over two labels after one item with ground truth \<open>a\<close> (index 0) that
  was classified as \<open>b\<close> (index 1).
\<close>

definition misclassified :: "string Evaluation" where
  "misclassified =
     (case append_eval two_labels [0] [1] of Inr e \<Rightarrow> e | Inl err \<Rightarrow> two_labels)"

section \<open>Properties of the point inside test\<close>

lemma and_one_odd: "and (n :: 64 word) 1 = 1 \<longleftrightarrow> odd (unat n)"
proof -
  have "and n 1 = 1 \<longleftrightarrow> unat n mod 2 = 1"
    by (simp add: and_one_eq word_eq_iff_unsigned [where ?'a = nat] unat_mod_distrib)
  then show ?thesis by presburger
qed

text \<open>
  C1.  Whatever status the traversal leaves, \<open>is_inside_ray_tree_traversal\<close> maps it
  as follows: tribool false (the query point lies on a facet) gives \<open>ON_BOUNDARY\<close>;
  tribool true with an odd number of crossings gives \<open>ON_BOUNDED_SIDE\<close>, with an even
  number \<open>ON_UNBOUNDED_SIDE\<close>; an indeterminate status gives no result.
\<close>

theorem traversal_status_verdict:
  "is_inside_ray_tree_traversal ray_is_vertical ray tree =
     (case traversal tree ray_is_vertical ray (tribool_indeterminate, 0) of
        (tribool_false, n) \<Rightarrow> Some ON_BOUNDARY
      | (tribool_true, n) \<Rightarrow>
          Some (if odd (unat n) then ON_BOUNDED_SIDE else ON_UNBOUNDED_SIDE)
      | (tribool_indeterminate, n) \<Rightarrow> None)"
  by (simp add: is_inside_ray_tree_traversal_def status_to_side_def and_one_odd
      split: prod.split tribool.split)

theorem traversal_status_verdict_witness:
  "is_inside_ray_tree_traversal True (vertical_query centre tree_three_crossings)
     tree_three_crossings = Some ON_BOUNDED_SIDE"
  using traversal_status_verdict
    [of True "vertical_query centre tree_three_crossings" tree_three_crossings]
  by (simp add: tree_three_crossings_def)

lemma generator_after_Suc:
  "generator_after R g (Suc k) = generator_after R (snd (draw R g)) k"
  by (simp only: generator_after_def funpow_Suc_right comp_def)

lemma retry_ray_0:
  "retry_ray R point g 0 = ray_functor point (vector_functor_origin (fst (draw R g)))"
  by (simp add: retry_ray_def generator_after_def)

lemma retry_ray_Suc: "retry_ray R point g (Suc k) = retry_ray R point (snd (draw R g)) k"
  by (simp add: retry_ray_def generator_after_Suc)

lemma retry_loop_unfold:
  "retry_loop R point tree g rays =
     (case is_inside_ray_tree_traversal False (retry_ray R point g 0) tree of
        Some r \<Rightarrow> Some (r, rays @ [retry_ray R point g 0])
      | None \<Rightarrow> retry_loop R point tree (snd (draw R g)) (rays @ [retry_ray R point g 0]))"
  by (subst retry_loop.simps) (simp only: retry_ray_0)

lemma map_retry_ray_shift:
  "retry_ray R point g 0 # map (retry_ray R point (snd (draw R g))) [0..<n]
     = map (retry_ray R point g) [0..<Suc n]"
proof -
  have "map (retry_ray R point g) [0..<Suc n]
      = retry_ray R point g 0 # map (retry_ray R point g) (map Suc [0..<n])"
    by (simp only: map_Suc_upt upt_conv_Cons [of 0 "Suc n"] list.map)
  then show ?thesis by (simp add: retry_ray_Suc comp_def)
qed

lemma retry_loop_returns:
  assumes "\<forall>j<k. is_inside_ray_tree_traversal False (retry_ray R point g j) tree = None"
    and "is_inside_ray_tree_traversal False (retry_ray R point g k) tree = Some v"
  shows "retry_loop R point tree g rays
           = Some (v, rays @ map (retry_ray R point g) [0..<Suc k])"
  using assms
proof (induction k arbitrary: g rays)
  case 0
  then show ?case by (subst retry_loop_unfold) simp
next
  case (Suc k)
  from Suc.prems(1) have first: "is_inside_ray_tree_traversal False (retry_ray R point g 0) tree = None"
    by blast
  have rest: "\<forall>j<k. is_inside_ray_tree_traversal False (retry_ray R point (snd (draw R g)) j) tree = None"
    using Suc.prems(1) by (auto simp flip: retry_ray_Suc)
  have last: "is_inside_ray_tree_traversal False (retry_ray R point (snd (draw R g)) k) tree = Some v"
    using Suc.prems(2) by (simp add: retry_ray_Suc)
  have "retry_loop R point tree g rays
      = retry_loop R point tree (snd (draw R g)) (rays @ [retry_ray R point g 0])"
    by (subst retry_loop_unfold) (simp add: first)
  also have "\<dots> = Some (v, (rays @ [retry_ray R point g 0])
                 @ map (retry_ray R point (snd (draw R g))) [0..<Suc k])"
    by (rule Suc.IH [OF rest last])
  also have "(rays @ [retry_ray R point g 0]) @ map (retry_ray R point (snd (draw R g))) [0..<Suc k]
      = rays @ map (retry_ray R point g) [0..<Suc (Suc k)]"
    using map_retry_ray_shift [of R point g "Suc k"] by simp
  finally show ?case .
qed

lemma retry_loop_Some_determinate:
  assumes "retry_loop R point tree g rays = Some res"
  shows "\<exists>k. is_inside_ray_tree_traversal False (retry_ray R point g k) tree \<noteq> None"
  using assms
proof (induction rule: retry_loop.raw_induct [rotated 1, consumes 1])
  case (1 loop R point tree g rays res)
  show ?case
  proof (cases "is_inside_ray_tree_traversal False (retry_ray R point g 0) tree")
    case None
    with 1(2) have "loop R point tree (snd (draw R g)) (rays @ [retry_ray R point g 0]) = Some res"
      by (simp add: retry_ray_0)
    from 1(1) [OF this] obtain k where
      "is_inside_ray_tree_traversal False (retry_ray R point (snd (draw R g)) k) tree \<noteq> None"
      by blast
    then have "is_inside_ray_tree_traversal False (retry_ray R point g (Suc k)) tree \<noteq> None"
      by (simp add: retry_ray_Suc)
    then show ?thesis by blast
  next
    case (Some r)
    then show ?thesis by (metis option.distinct(1))
  qed
qed

lemma retry_loop_diverges:
  assumes "\<forall>k. is_inside_ray_tree_traversal False (retry_ray R point g k) tree = None"
  shows "retry_loop R point tree g rays = None"
proof (cases "retry_loop R point tree g rays")
  case (Some res)
  from retry_loop_Some_determinate [OF this] assms show ?thesis by auto
qed simp

lemma retry_loop_Some_rays:
  assumes "retry_loop R point tree g rays = Some (v, rays')"
  shows "\<exists>k. (\<forall>j<k. is_inside_ray_tree_traversal False (retry_ray R point g j) tree = None)
            \<and> is_inside_ray_tree_traversal False (retry_ray R point g k) tree = Some v
            \<and> rays' = rays @ map (retry_ray R point g) [0..<Suc k]"
proof -
  let ?det = "\<lambda>k. is_inside_ray_tree_traversal False (retry_ray R point g k) tree \<noteq> None"
  from retry_loop_Some_determinate [OF assms] have ex: "\<exists>k. ?det k" .
  define k where "k = (LEAST k. ?det k)"
  have dk: "?det k" unfolding k_def using ex by (rule LeastI_ex)
  have before: "\<forall>j<k. is_inside_ray_tree_traversal False (retry_ray R point g j) tree = None"
    unfolding k_def using not_less_Least by blast
  from dk obtain w where w: "is_inside_ray_tree_traversal False (retry_ray R point g k) tree = Some w"
    by blast
  from retry_loop_returns [OF before w, of rays] assms
  have "v = w" "rays' = rays @ map (retry_ray R point g) [0..<Suc k]" by simp_all
  with before w show ?thesis by blast
qed

lemma retry_status_side:
  "is_inside_ray_tree_traversal False (retry_ray R point (seeded R seed) k) tree
     = status_to_side (retry_status R point tree k)"
  by (simp add: is_inside_ray_tree_traversal_def retry_status_def)

lemma source_retry_ray: "source (retry_ray R point g k) = point"
  by (simp add: retry_ray_def ray_functor_def)

lemma status_to_side_simps:
  "status_to_side (tribool_indeterminate, n) = None"
  "status_to_side (tribool_false, n) = Some ON_BOUNDARY"
  "status_to_side (tribool_true, n)
     = Some (if odd (unat n) then ON_BOUNDED_SIDE else ON_UNBOUNDED_SIDE)"
  by (simp_all add: status_to_side_def and_one_odd)


lemma vq_centre:
  assumes "number_types t = exact_numbers"
  shows "vertical_query centre t =
     \<lparr>source = centre,
      direction = \<lparr>dx = 0, dy = 0,
                   dz = (if 2 < zmax (bbox t) + zmin (bbox t) then - 1 else 1)\<rparr>\<rparr>"
  by (simp add: vertical_query_def centre_def ray_functor_def vector_functor_def assms
      exact_numbers_def)

lemma centre_inside: "\<not> outside_bbox centre (bbox tree_three_crossings)"
  by (simp add: outside_bbox_def centre_def tree_three_crossings_def box_0_2_def)

lemma below_centre_inside:
  "\<not> outside_bbox \<lparr>x = 1, y = 1, z = 1 / 2\<rparr> (bbox tree_three_crossings)"
  by (simp add: outside_bbox_def tree_three_crossings_def box_0_2_def)


lemma centre_three_crossings: "point_inside counting_source centre tree_three_crossings
     = Some (ON_BOUNDED_SIDE, [vertical_query centre tree_three_crossings])"
proof -
  have "is_inside_ray_tree_traversal True (vertical_query centre tree_three_crossings)
          tree_three_crossings = Some ON_BOUNDED_SIDE"
    by (simp add: is_inside_ray_tree_traversal_def status_to_side_simps tree_three_crossings_def)
  with centre_inside show ?thesis by (simp add: point_inside_def)
qed


lemma counting_points:
  "draw counting_source g = (\<lparr>x = of_nat g, y = 0, z = 1\<rparr>, g + 1)"
  "seeded counting_source seed = 1340818006"
  by (simp_all add: counting_source_def seed_def)

lemma counting_retry_rays:
  "retry_ray counting_source centre (seeded counting_source seed) 0
      = \<lparr>source = centre, direction = \<lparr>dx = 1340818006, dy = 0, dz = 1\<rparr>\<rparr>"
  "retry_ray counting_source centre (seeded counting_source seed) (Suc 0)
      = \<lparr>source = centre, direction = \<lparr>dx = 1340818007, dy = 0, dz = 1\<rparr>\<rparr>"
  by (simp_all add: retry_ray_def generator_after_def counting_points ray_functor_def
      vector_functor_origin_def)


lemma retry_twice_facts:
  "\<not> outside_bbox centre (bbox tree_retry_twice)"
  "is_inside_ray_tree_traversal True (vertical_query centre tree_retry_twice) tree_retry_twice = None"
  "status_to_side (retry_status counting_source centre tree_retry_twice 0) = None"
  "status_to_side (retry_status counting_source centre tree_retry_twice (Suc 0)) = Some ON_BOUNDED_SIDE"
  by (simp_all add: outside_bbox_def centre_def box_0_2_def is_inside_ray_tree_traversal_def
      retry_status_def counting_retry_rays [unfolded centre_def] tree_retry_twice_def
      status_to_side_simps)

lemma never_facts:
  "\<not> outside_bbox centre (bbox tree_never)"
  "is_inside_ray_tree_traversal True (vertical_query centre tree_never) tree_never = None"
  "status_to_side (retry_status counting_source centre tree_never k) = None"
  by (simp_all add: outside_bbox_def centre_def box_0_2_def is_inside_ray_tree_traversal_def
      retry_status_def tree_never_def status_to_side_simps)


text \<open>
  C3.  A point outside one of the three coordinate ranges of the tree's bounding box
  (the ranges are closed intervals) is reported \<open>ON_UNBOUNDED_SIDE\<close> with no ray
  traversed.  A point within all three ranges, the faces of the box included, passes
  the test: a call that returns has traversed at least one ray.
\<close>

theorem bbox_gate:
  "((x point \<notin> {xmin (bbox tree) .. xmax (bbox tree)}
      \<or> y point \<notin> {ymin (bbox tree) .. ymax (bbox tree)}
      \<or> z point \<notin> {zmin (bbox tree) .. zmax (bbox tree)})
     \<longrightarrow> point_inside R point tree = Some (ON_UNBOUNDED_SIDE, []))
   \<and> ((x point \<in> {xmin (bbox tree) .. xmax (bbox tree)}
      \<and> y point \<in> {ymin (bbox tree) .. ymax (bbox tree)}
      \<and> z point \<in> {zmin (bbox tree) .. zmax (bbox tree)})
     \<longrightarrow> (\<forall>v. point_inside R point tree \<noteq> Some (v, [])))"
proof (intro conjI impI allI)
  assume "x point \<notin> {xmin (bbox tree) .. xmax (bbox tree)}
      \<or> y point \<notin> {ymin (bbox tree) .. ymax (bbox tree)}
      \<or> z point \<notin> {zmin (bbox tree) .. zmax (bbox tree)}"
  then have "outside_bbox point (bbox tree)"
    by (auto simp add: outside_bbox_def)
  then show "point_inside R point tree = Some (ON_UNBOUNDED_SIDE, [])"
    by (simp add: point_inside_def)
next
  fix v
  assume "x point \<in> {xmin (bbox tree) .. xmax (bbox tree)}
      \<and> y point \<in> {ymin (bbox tree) .. ymax (bbox tree)}
      \<and> z point \<in> {zmin (bbox tree) .. zmax (bbox tree)}"
  then have inside: "\<not> outside_bbox point (bbox tree)"
    by (auto simp add: outside_bbox_def)
  show "point_inside R point tree \<noteq> Some (v, [])"
  proof
    assume ret: "point_inside R point tree = Some (v, [])"
    show False
    proof (cases "is_inside_ray_tree_traversal True (vertical_query point tree) tree")
      case None
      with ret inside
      have "retry_loop R point tree (seeded R seed) [vertical_query point tree] = Some (v, [])"
        by (simp add: point_inside_def)
      from retry_loop_Some_rays [OF this] show False by simp
    next
      case (Some r)
      with ret inside show False by (simp add: point_inside_def)
    qed
  qed
qed

theorem bbox_gate_witness:
  "point_inside counting_source far_away tree_never = Some (ON_UNBOUNDED_SIDE, [])
   \<and> point_inside counting_source corner tree_three_crossings \<noteq> Some (ON_UNBOUNDED_SIDE, [])"
  using bbox_gate [of far_away tree_never counting_source]
    bbox_gate [of corner tree_three_crossings counting_source]
  by (simp add: far_away_def corner_def tree_never_def tree_three_crossings_def box_0_2_def)


text \<open>
  Rounding to double: an integer from \<open>2^1024\<close> on overflows.
\<close>

lemma binade_pow2_add:
  assumes "0 \<le> b" "b < 2 ^ n"
  shows "binade (of_int (2 ^ n + b)) = int n"
proof -
  have q: "quotient_of (of_int (2 ^ n + b)) = (2 ^ n + b, 1)"
    by (simp add: of_int_rat quotient_of_Fract)
  have l: "bitlen (2 ^ n + b) = int n + 1"
    using bitlen_twopow_add_eq [OF assms] by simp
  have l1: "bitlen 1 = 1" by (simp add: bitlen_alt_def)
  have "(2::rat) powi (int n) \<le> of_int (2 ^ n + b)"
    using assms(1) by (simp add: power_int_def)
  then show ?thesis
    unfolding binade_def q Let_def fst_conv snd_conv l l1 by simp
qed


lemma round_to_double_overflow:
  assumes "0 \<le> b" "b < 2 ^ 1024"
  shows "round_to_double (of_int (2 ^ 1024 + b)) = Plus_infinity"
proof -
  define q :: rat where "q = of_int (2 ^ 1024 + b)"
  define u :: rat where "u = 2 powi 972"
  have u: "0 < u" by (simp add: u_def)
  have qpos: "0 < q" using assms(1) by (simp add: q_def)
  have e: "binade \<bar>q\<bar> = 1024"
    using binade_pow2_add [OF assms] qpos by (simp add: q_def)
  have "2 ^ 1024 = 2 ^ 52 * u"
    by (simp add: u_def power_int_def flip: power_add)
  also have "\<dots> \<le> of_int \<lfloor>q / u\<rfloor> * u"
  proof -
    have "(2::rat) ^ 52 * u \<le> q"
      using assms(1) by (simp add: q_def u_def power_int_def flip: power_add)
    then have "(2::rat) ^ 52 \<le> q / u" using u by (simp add: pos_le_divide_eq)
    then have "(2::int) ^ 52 \<le> \<lfloor>q / u\<rfloor>" by (simp add: le_floor_iff)
    then have "(2::rat) ^ 52 \<le> of_int \<lfloor>q / u\<rfloor>"
      by (metis of_int_le_iff of_int_numeral of_int_power)
    with u show ?thesis by (simp add: mult_right_mono)
  qed
  also have "\<dots> \<le> of_int (round_half_even (q / u)) * u"
  proof -
    have "\<lfloor>q / u\<rfloor> \<le> round_half_even (q / u)"
      by (simp add: round_half_even_def Let_def)
    with u show ?thesis by (simp add: mult_right_mono)
  qed
  finally have "2 ^ 1024 \<le> of_int (round_half_even (q / u)) * u" .
  moreover have "q \<noteq> 0" using qpos by simp
  ultimately show ?thesis
    unfolding q_def [symmetric]
    by (simp add: round_to_double_def e Let_def u_def)
qed


lemma huge_box_facts:
  "twice (number_types tree_huge_box) (z high_point) = Plus_infinity"
  "box_sum (number_types tree_huge_box) (zmax (bbox tree_huge_box)) (zmin (bbox tree_huge_box))
     = Plus_infinity"
proof -
  have "twice (number_types tree_huge_box) (z high_point)
          = round_to_double (of_int (2 ^ 1024 + 0))"
    by (simp add: tree_huge_box_def high_point_def double_numbers_def)
  also have "\<dots> = Plus_infinity"
    by (rule round_to_double_overflow) simp_all
  finally show "twice (number_types tree_huge_box) (z high_point) = Plus_infinity" .
  have "box_sum (number_types tree_huge_box) (zmax (bbox tree_huge_box)) (zmin (bbox tree_huge_box))
          = round_to_double (of_int (2 ^ 1024 + 2 ^ 1022))"
    by (simp add: tree_huge_box_def double_numbers_def)
  also have "\<dots> = Plus_infinity"
    by (rule round_to_double_overflow) simp_all
  finally show "box_sum (number_types tree_huge_box) (zmax (bbox tree_huge_box))
      (zmin (bbox tree_huge_box)) = Plus_infinity" .
qed

text \<open>
  C4.  For a point that passes the bounding-box test, the first query ray starts at the
  point and is vertical: its direction is \<open>(0, 0, -1)\<close> when \<open>2*z\<close>, as the kernel's
  number type computes it, is strictly less than \<open>zmax+zmin\<close>, as the box's number type
  computes it, and \<open>(0, 0, 1)\<close> otherwise.  Where this product and this sum are exact,
  the direction is \<open>(0, 0, -1)\<close> when the point's \<open>z\<close> is strictly below the midpoint
  of the box's \<open>z\<close> range and \<open>(0, 0, 1)\<close> otherwise (also at the midpoint).  The
  vertical ray is the first ray traversed.
\<close>

theorem initial_ray:
  assumes "\<not> outside_bbox point (bbox tree)"
  shows "vertical_query point tree =
           \<lparr>source = point,
            direction = \<lparr>dx = 0, dy = 0,
              dz = (if number_less (twice (number_types tree) (z point))
                         (box_sum (number_types tree) (zmax (bbox tree)) (zmin (bbox tree)))
                    then - 1 else 1)\<rparr>\<rparr>
         \<and> (twice (number_types tree) (z point) = Number (2 * z point)
              \<and> box_sum (number_types tree) (zmax (bbox tree)) (zmin (bbox tree))
                  = Number (zmax (bbox tree) + zmin (bbox tree))
            \<longrightarrow> vertical_query point tree =
                  \<lparr>source = point,
                   direction = \<lparr>dx = 0, dy = 0,
                     dz = (if z point < (zmin (bbox tree) + zmax (bbox tree)) / 2
                           then - 1 else 1)\<rparr>\<rparr>)
         \<and> (\<forall>v rays. point_inside R point tree = Some (v, rays)
               \<longrightarrow> rays \<noteq> [] \<and> hd rays = vertical_query point tree)"
proof (intro conjI allI impI)
  show "vertical_query point tree =
           \<lparr>source = point,
            direction = \<lparr>dx = 0, dy = 0,
              dz = (if number_less (twice (number_types tree) (z point))
                         (box_sum (number_types tree) (zmax (bbox tree)) (zmin (bbox tree)))
                    then - 1 else 1)\<rparr>\<rparr>"
    by (simp add: vertical_query_def ray_functor_def vector_functor_def)
next
  assume exact: "twice (number_types tree) (z point) = Number (2 * z point)
              \<and> box_sum (number_types tree) (zmax (bbox tree)) (zmin (bbox tree))
                  = Number (zmax (bbox tree) + zmin (bbox tree))"
  have "2 * z point < zmax (bbox tree) + zmin (bbox tree)
          \<longleftrightarrow> z point < (zmin (bbox tree) + zmax (bbox tree)) / 2"
    by (simp add: field_simps)
  with exact show "vertical_query point tree =
           \<lparr>source = point,
            direction = \<lparr>dx = 0, dy = 0,
              dz = (if z point < (zmin (bbox tree) + zmax (bbox tree)) / 2 then - 1 else 1)\<rparr>\<rparr>"
    by (simp add: vertical_query_def ray_functor_def vector_functor_def)
next
  fix v rays
  assume ret: "point_inside R point tree = Some (v, rays)"
  show "rays \<noteq> []" "hd rays = vertical_query point tree"
  proof (atomize (full), cases "is_inside_ray_tree_traversal True (vertical_query point tree) tree")
    case None
    with ret assms
    have "retry_loop R point tree (seeded R seed) [vertical_query point tree] = Some (v, rays)"
      by (simp add: point_inside_def)
    from retry_loop_Some_rays [OF this]
    show "rays \<noteq> [] \<and> hd rays = vertical_query point tree" by auto
  next
    case (Some r)
    with ret assms show "rays \<noteq> [] \<and> hd rays = vertical_query point tree"
      by (auto simp add: point_inside_def)
  qed
qed

theorem initial_ray_witness:
  "vertical_query centre tree_three_crossings
     = \<lparr>source = centre, direction = \<lparr>dx = 0, dy = 0, dz = 1\<rparr>\<rparr>
   \<and> vertical_query \<lparr>x = 1, y = 1, z = 1 / 2\<rparr> tree_three_crossings
     = \<lparr>source = \<lparr>x = 1, y = 1, z = 1 / 2\<rparr>, direction = \<lparr>dx = 0, dy = 0, dz = - 1\<rparr>\<rparr>
   \<and> hd (snd (the (point_inside counting_source centre tree_three_crossings)))
     = \<lparr>source = centre, direction = \<lparr>dx = 0, dy = 0, dz = 1\<rparr>\<rparr>"
proof -
  have z: "zmin (bbox tree_three_crossings) = 0" "zmax (bbox tree_three_crossings) = 2"
    by (simp_all add: tree_three_crossings_def box_0_2_def)
  have n: "twice (number_types tree_three_crossings) v = Number (2 * v)"
    "box_sum (number_types tree_three_crossings) a b = Number (a + b)" for v a b
    by (simp_all add: tree_three_crossings_def exact_numbers_def)
  have zc: "z centre = 1" by (simp add: centre_def)
  from initial_ray [OF centre_inside, of counting_source, THEN conjunct2]
  have 1: "vertical_query centre tree_three_crossings
     = \<lparr>source = centre, direction = \<lparr>dx = 0, dy = 0, dz = 1\<rparr>\<rparr>"
    and 2: "hd (snd (the (point_inside counting_source centre tree_three_crossings)))
     = vertical_query centre tree_three_crossings"
    by (simp_all add: z zc n centre_three_crossings)
  from initial_ray [OF below_centre_inside, of counting_source, THEN conjunct2]
  have 3: "vertical_query \<lparr>x = 1, y = 1, z = 1 / 2\<rparr> tree_three_crossings
     = \<lparr>source = \<lparr>x = 1, y = 1, z = 1 / 2\<rparr>, direction = \<lparr>dx = 0, dy = 0, dz = - 1\<rparr>\<rparr>"
    by (simp add: z n)
  from 1 2 3 show ?thesis by simp
qed

text \<open>
  With doubles the midpoint does not decide the direction.  In the box whose \<open>z\<close> range
  is \<open>[1, 1 + 2^-52]\<close> the point at \<open>z = 1\<close> is strictly below the midpoint, but the
  sum \<open>2 + 2^-52\<close> is halfway between the doubles \<open>2\<close> and \<open>2 + 2^-51\<close> and rounds
  to \<open>2\<close>, which is not greater than \<open>2*z\<close>: the ray points up.  In the box whose
  \<open>z\<close> range is \<open>[2^1023, 2^1023 + 2^1022]\<close> the point at \<open>z = 2^1023\<close> is strictly
  below the midpoint, but product and sum both overflow to infinity: the ray points up.
\<close>

theorem initial_ray_rounded_sum:
  "\<not> outside_bbox centre (bbox tree_thin_box)
   \<and> z centre < (zmin (bbox tree_thin_box) + zmax (bbox tree_thin_box)) / 2
   \<and> vertical_query centre tree_thin_box
       = \<lparr>source = centre, direction = \<lparr>dx = 0, dy = 0, dz = 1\<rparr>\<rparr>
   \<and> \<not> outside_bbox high_point (bbox tree_huge_box)
   \<and> z high_point < (zmin (bbox tree_huge_box) + zmax (bbox tree_huge_box)) / 2
   \<and> vertical_query high_point tree_huge_box
       = \<lparr>source = high_point, direction = \<lparr>dx = 0, dy = 0, dz = 1\<rparr>\<rparr>"
proof (intro conjI)
  show "\<not> outside_bbox centre (bbox tree_thin_box)"
    by (simp add: outside_bbox_def centre_def tree_thin_box_def)
  show "z centre < (zmin (bbox tree_thin_box) + zmax (bbox tree_thin_box)) / 2"
    by (simp add: centre_def tree_thin_box_def)
  have "twice (number_types tree_thin_box) (z centre) = Number 2"
    "box_sum (number_types tree_thin_box) (zmax (bbox tree_thin_box)) (zmin (bbox tree_thin_box))
       = Number 2"
    by code_simp+
  then show "vertical_query centre tree_thin_box
       = \<lparr>source = centre, direction = \<lparr>dx = 0, dy = 0, dz = 1\<rparr>\<rparr>"
    by (simp add: vertical_query_def ray_functor_def vector_functor_def)
  show "\<not> outside_bbox high_point (bbox tree_huge_box)"
    by (simp add: outside_bbox_def high_point_def tree_huge_box_def)
  show "z high_point < (zmin (bbox tree_huge_box) + zmax (bbox tree_huge_box)) / 2"
    by (simp add: high_point_def tree_huge_box_def)
  from huge_box_facts show "vertical_query high_point tree_huge_box
       = \<lparr>source = high_point, direction = \<lparr>dx = 0, dy = 0, dz = 1\<rparr>\<rparr>"
    by (simp add: vertical_query_def ray_functor_def vector_functor_def)
qed

text \<open>
  C5.  For a point inside the box whose vertical traversal is indeterminate: if every
  retry traversal is indeterminate, the call never returns (there is no bound on the
  number of retries); if the \<open>k\<close>-th retry is the first determinate one, the call
  returns after exactly \<open>k + 1\<close> retries, and its result is the side read from the
  status of that last traversal alone, each traversal having started from the fresh
  status (indeterminate, 0).  Every retry ray starts at the query point.
\<close>

theorem retry_until_determinate:
  assumes inside: "\<not> outside_bbox point (bbox tree)"
    and vert: "is_inside_ray_tree_traversal True (vertical_query point tree) tree = None"
  shows "((\<forall>k. status_to_side (retry_status R point tree k) = None)
            \<longrightarrow> point_inside R point tree = None)
       \<and> (\<forall>k v. (\<forall>j<k. status_to_side (retry_status R point tree j) = None)
                  \<and> status_to_side (retry_status R point tree k) = Some v
            \<longrightarrow> point_inside R point tree
                  = Some (v, vertical_query point tree
                             # map (retry_ray R point (seeded R seed)) [0..<Suc k]))
       \<and> (\<forall>k. source (retry_ray R point (seeded R seed) k) = point)"
proof -
  have start: "point_inside R point tree
      = retry_loop R point tree (seeded R seed) [vertical_query point tree]"
    using inside vert by (simp add: point_inside_def)
  have never: "point_inside R point tree = None"
    if "\<forall>k. status_to_side (retry_status R point tree k) = None"
    using that retry_loop_diverges [of R point "seeded R seed" tree] start
    by (simp add: retry_status_side)
  have returns: "point_inside R point tree
        = Some (v, vertical_query point tree
                   # map (retry_ray R point (seeded R seed)) [0..<Suc k])"
    if "\<forall>j<k. status_to_side (retry_status R point tree j) = None"
      and "status_to_side (retry_status R point tree k) = Some v" for k v
    using retry_loop_returns [of k R point "seeded R seed" tree v "[vertical_query point tree]"]
      that start
    by (simp add: retry_status_side)
  from never returns show ?thesis
    by (simp add: source_retry_ray)
qed

theorem retry_until_determinate_witness:
  "point_inside counting_source centre tree_retry_twice
     = Some (ON_BOUNDED_SIDE,
         [\<lparr>source = centre, direction = \<lparr>dx = 0, dy = 0, dz = 1\<rparr>\<rparr>,
          \<lparr>source = centre, direction = \<lparr>dx = 1340818006, dy = 0, dz = 1\<rparr>\<rparr>,
          \<lparr>source = centre, direction = \<lparr>dx = 1340818007, dy = 0, dz = 1\<rparr>\<rparr>])
   \<and> point_inside counting_source centre tree_never = None"
proof -
  have before: "\<forall>j<Suc 0. status_to_side (retry_status counting_source centre tree_retry_twice j)
      = None"
    by (simp add: retry_twice_facts(3))
  from retry_until_determinate [OF retry_twice_facts(1,2), of counting_source]
  have "(\<forall>j<Suc 0. status_to_side (retry_status counting_source centre tree_retry_twice j) = None)
          \<and> status_to_side (retry_status counting_source centre tree_retry_twice (Suc 0))
              = Some ON_BOUNDED_SIDE
        \<longrightarrow> point_inside counting_source centre tree_retry_twice
          = Some (ON_BOUNDED_SIDE, vertical_query centre tree_retry_twice
               # map (retry_ray counting_source centre (seeded counting_source seed))
                   [0..<Suc (Suc 0)])"
    by blast
  with before retry_twice_facts(4)
  have "point_inside counting_source centre tree_retry_twice
          = Some (ON_BOUNDED_SIDE, vertical_query centre tree_retry_twice
               # map (retry_ray counting_source centre (seeded counting_source seed))
                   [0..<Suc (Suc 0)])"
    by blast
  moreover have "vertical_query centre tree_retry_twice
      = \<lparr>source = centre, direction = \<lparr>dx = 0, dy = 0, dz = 1\<rparr>\<rparr>"
    by (simp add: vq_centre tree_retry_twice_def box_0_2_def)
  moreover from retry_until_determinate [OF never_facts(1,2), of counting_source]
  have "point_inside counting_source centre tree_never = None"
    by (simp add: never_facts(3))
  ultimately show ?thesis
    by (simp add: counting_retry_rays upt_rec)
qed

text \<open>
  C2 (as the code has it).  The seed is the constant 1340818006, and the generator is
  constructed from it inside \<open>operator()\<close>, in every call that needs a retry.  So the
  rays a call traverses after the vertical one are built from the leading points of the
  one sequence generated from that seed, and the result of a call does not depend on
  the calls before it: the same queries give the same retry directions in every run.
\<close>

theorem retry_directions_from_seed:
  "seed = 1340818006
   \<and> (\<forall>v rays. point_inside R point tree = Some (v, rays)
         \<longrightarrow> rays = []
             \<or> rays = vertical_query point tree
                  # map (retry_ray R point (seeded R seed)) [0..<length rays - 1])
   \<and> (\<forall>before after.
         queries R (before @ (point, tree) # after) ! length before = point_inside R point tree)"
proof (intro conjI allI impI)
  show "seed = 1340818006" by (rule seed_def)
next
  fix v rays
  assume ret: "point_inside R point tree = Some (v, rays)"
  show "rays = [] \<or> rays = vertical_query point tree
                  # map (retry_ray R point (seeded R seed)) [0..<length rays - 1]"
  proof (cases "outside_bbox point (bbox tree)")
    case True
    with ret show ?thesis by (simp add: point_inside_def)
  next
    case False
    show ?thesis
    proof (cases "is_inside_ray_tree_traversal True (vertical_query point tree) tree")
      case None
      with ret False
      have "retry_loop R point tree (seeded R seed) [vertical_query point tree] = Some (v, rays)"
        by (simp add: point_inside_def)
      from retry_loop_Some_rays [OF this] obtain k where
        "rays = [vertical_query point tree]
           @ map (retry_ray R point (seeded R seed)) [0..<Suc k]"
        by blast
      then show ?thesis by simp
    next
      case (Some r)
      with ret False show ?thesis by (auto simp add: point_inside_def)
    qed
  qed
next
  fix before after
  show "queries R (before @ (point, tree) # after) ! length before = point_inside R point tree"
    by (simp add: queries_def nth_append)
qed

lemma retry_once_facts:
  "\<not> outside_bbox centre (bbox tree_retry_once)"
  "is_inside_ray_tree_traversal True (vertical_query centre tree_retry_once) tree_retry_once = None"
  "is_inside_ray_tree_traversal False ray tree_retry_once = Some ON_BOUNDED_SIDE"
  "vertical_query centre tree_retry_once
     = \<lparr>source = centre, direction = \<lparr>dx = 0, dy = 0, dz = 1\<rparr>\<rparr>"
  by (simp_all add: outside_bbox_def centre_def box_0_2_def is_inside_ray_tree_traversal_def
      tree_retry_once_def status_to_side_simps vq_centre [unfolded centre_def])

lemma counting_ray_0:
  "retry_ray counting_source centre g 0
     = \<lparr>source = centre, direction = \<lparr>dx = of_nat g, dy = 0, dz = 1\<rparr>\<rparr>"
  by (simp add: retry_ray_def generator_after_def counting_points ray_functor_def
      vector_functor_origin_def)

lemma retry_once_shared:
  "point_inside_shared counting_source g centre tree_retry_once
     = Some (ON_BOUNDED_SIDE,
         [\<lparr>source = centre, direction = \<lparr>dx = 0, dy = 0, dz = 1\<rparr>\<rparr>,
          \<lparr>source = centre, direction = \<lparr>dx = of_nat g, dy = 0, dz = 1\<rparr>\<rparr>])"
proof -
  have "point_inside_shared counting_source g centre tree_retry_once
      = retry_loop counting_source centre tree_retry_once g
          [vertical_query centre tree_retry_once]"
    by (simp add: point_inside_shared_def retry_once_facts(1,2))
  also have "\<dots> = Some (ON_BOUNDED_SIDE, [vertical_query centre tree_retry_once]
      @ map (retry_ray counting_source centre g) [0..<Suc 0])"
    by (rule retry_loop_returns) (simp_all add: retry_once_facts(3))
  finally show ?thesis
    by (simp add: retry_once_facts(4) counting_ray_0)
qed

lemma point_inside_shared_seed:
  "point_inside R point tree = point_inside_shared R (seeded R seed) point tree"
  by (simp add: point_inside_def point_inside_shared_def)

text \<open>
  The claim as stated fails in one part: the generator is seeded again in each query.
  Two queries that need one retry each both draw the first point of the sequence; with
  a generator that is not seeded again the second query would draw the second point.
\<close>

theorem generator_seeded_in_each_query:
  "queries counting_source [(centre, tree_retry_once), (centre, tree_retry_once)]
     = [Some (ON_BOUNDED_SIDE,
          [\<lparr>source = centre, direction = \<lparr>dx = 0, dy = 0, dz = 1\<rparr>\<rparr>,
           \<lparr>source = centre, direction = \<lparr>dx = 1340818006, dy = 0, dz = 1\<rparr>\<rparr>]),
        Some (ON_BOUNDED_SIDE,
          [\<lparr>source = centre, direction = \<lparr>dx = 0, dy = 0, dz = 1\<rparr>\<rparr>,
           \<lparr>source = centre, direction = \<lparr>dx = 1340818006, dy = 0, dz = 1\<rparr>\<rparr>])]
   \<and> queries_shared counting_source (seeded counting_source seed)
       [(centre, tree_retry_once), (centre, tree_retry_once)]
     = [Some (ON_BOUNDED_SIDE,
          [\<lparr>source = centre, direction = \<lparr>dx = 0, dy = 0, dz = 1\<rparr>\<rparr>,
           \<lparr>source = centre, direction = \<lparr>dx = 1340818006, dy = 0, dz = 1\<rparr>\<rparr>]),
        Some (ON_BOUNDED_SIDE,
          [\<lparr>source = centre, direction = \<lparr>dx = 0, dy = 0, dz = 1\<rparr>\<rparr>,
           \<lparr>source = centre, direction = \<lparr>dx = 1340818007, dy = 0, dz = 1\<rparr>\<rparr>])]"
proof -
  have g1: "generator_after counting_source 1340818006 (Suc 0) = 1340818007"
    by (simp add: generator_after_def counting_points)
  show ?thesis
    by (simp add: queries_def point_inside_shared_seed retry_once_shared counting_points(2) g1)
qed

theorem retry_directions_from_seed_witness:
  "[\<lparr>source = centre, direction = \<lparr>dx = 0, dy = 0, dz = 1\<rparr>\<rparr>,
    \<lparr>source = centre, direction = \<lparr>dx = 1340818006, dy = 0, dz = 1\<rparr>\<rparr>]
     = vertical_query centre tree_retry_once
         # map (retry_ray counting_source centre (seeded counting_source seed)) [0..<Suc 0]
   \<and> queries counting_source [(centre, tree_never), (centre, tree_retry_once)] ! 1
     = point_inside counting_source centre tree_retry_once"
proof -
  have 1: "point_inside counting_source centre tree_retry_once
     = Some (ON_BOUNDED_SIDE,
          [\<lparr>source = centre, direction = \<lparr>dx = 0, dy = 0, dz = 1\<rparr>\<rparr>,
           \<lparr>source = centre, direction = \<lparr>dx = 1340818006, dy = 0, dz = 1\<rparr>\<rparr>])"
    by (simp add: point_inside_shared_seed retry_once_shared counting_points(2))
  note c = retry_directions_from_seed [of counting_source centre tree_retry_once]
  from c [THEN conjunct2, THEN conjunct1, rule_format, OF 1]
  have 2: "[\<lparr>source = centre, direction = \<lparr>dx = 0, dy = 0, dz = 1\<rparr>\<rparr>,
    \<lparr>source = centre, direction = \<lparr>dx = 1340818006, dy = 0, dz = 1\<rparr>\<rparr>]
     = vertical_query centre tree_retry_once
         # map (retry_ray counting_source centre (seeded counting_source seed)) [0..<Suc 0]"
    by simp
  have 3: "queries counting_source ([(centre, tree_never)] @ (centre, tree_retry_once) # [])
             ! length [(centre, tree_never)]
           = point_inside counting_source centre tree_retry_once"
    by (rule c [THEN conjunct2, THEN conjunct2, rule_format])
  from 2 3 show ?thesis by simp
qed

section \<open>Properties of read\_las\_point\_set\<close>

lemma ps_points_add_property_map [simp]:
  "ps_points (add_property_map name d ps) = ps_points ps"
  by (simp add: add_property_map_def split: option.split)

lemma ps_maps_add_property_map:
  "ps_maps (add_property_map name d ps) name' =
     (if name' = name \<and> ps_maps ps name = None
      then Some (d, replicate (length (ps_points ps)) d) else ps_maps ps name')"
  by (simp add: add_property_map_def split: option.split)

lemma ps_points_put [simp]: "ps_points (put name it v ps) = ps_points ps"
  by (simp add: put_def split: option.split)

lemma ps_maps_put:
  "ps_maps (put name it v ps) name' =
     (if name' = name
      then map_option (\<lambda>c. (fst c, (snd c)[it := v])) (ps_maps ps name)
      else ps_maps ps name')"
  by (simp add: put_def split: option.split)

lemma ps_points_insert_point [simp]:
  "ps_points (insert_point p ps) = ps_points ps @ [p]"
  by (simp add: insert_point_def)

lemma ps_maps_insert_point:
  "ps_maps (insert_point p ps) name = map_option (\<lambda>c. (fst c, snd c @ [fst c])) (ps_maps ps name)"
  by (simp add: insert_point_def)

lemma ps_points_read_point [simp]:
  "ps_points (read_point p ps) = ps_points ps @ [(GetX p, GetY p, GetZ p)]"
  by (simp add: read_point_def Let_def)

lemma in_channel_names:
  "name \<in> set channel_names \<longleftrightarrow>
     name = ''echo'' \<or> name = ''red'' \<or> name = ''green'' \<or> name = ''blue''"
  by (auto simp add: channel_names_def)


lemma ps_maps_read_point:
  assumes "ps_maps ps name = Some (d, vs)" and "length vs = length (ps_points ps)"
    and "name \<in> set channel_names"
  shows "ps_maps (read_point p ps) name = Some (d, vs @ [stored name p])"
proof -
  have it: "(vs @ [d])[length (ps_points ps) := v] = vs @ [v]" for v
    using assms(2) by (metis list_update_length)
  have step: "ps_maps (read_point p ps) name
      = map_option (\<lambda>c. (fst c, (snd c @ [fst c])[length (ps_points ps) := stored name p]))
          (ps_maps ps name)"
    using assms(3) unfolding in_channel_names
    by (elim disjE)
      (simp_all add: read_point_def Let_def ps_maps_put ps_maps_insert_point stored_def
        option.map_comp comp_def)
  show ?thesis
    by (simp add: step assms(1) it)
qed

lemma fold_read_point:
  assumes "ps_maps ps name = Some (d, vs)" and "length vs = length (ps_points ps)"
    and "name \<in> set channel_names"
  shows "ps_maps (fold read_point stream ps) name = Some (d, vs @ map (stored name) stream)
       \<and> length (ps_points (fold read_point stream ps)) = length (ps_points ps) + length stream"
  using assms
proof (induction stream arbitrary: ps vs)
  case Nil
  then show ?case by simp
next
  case (Cons p stream)
  have "ps_maps (read_point p ps) name = Some (d, vs @ [stored name p])"
    by (rule ps_maps_read_point [OF Cons.prems])
  moreover have "length (vs @ [stored name p]) = length (ps_points (read_point p ps))"
    using Cons.prems(2) by simp
  ultimately show ?case
    using Cons.IH [of "read_point p ps" "vs @ [stored name p]"] Cons.prems(3) by simp
qed

lemma scan_points_eq:
  "scan_points ps its flags =
     (fst flags \<and> (\<forall>it\<in>set its. get ''echo'' it ps = 0),
      snd flags \<and> (\<forall>it\<in>set its. get ''red'' it ps = 0 \<and> get ''green'' it ps = 0
                                  \<and> get ''blue'' it ps = 0))"
proof (induction its arbitrary: flags)
  case Nil
  then show ?case by simp
next
  case (Cons it its)
  show ?case
    by (cases flags) (auto simp add: Cons.IH Let_def)
qed

lemma prologue_points:
  "ps_points (add_property_map ''blue'' 0 (add_property_map ''green'' 0
      (add_property_map ''red'' 0 (add_property_map ''echo'' 0 ps)))) = ps_points ps"
  by simp

lemma prologue_maps:
  assumes "name \<in> set channel_names"
  shows "ps_maps (add_property_map ''blue'' 0 (add_property_map ''green'' 0
      (add_property_map ''red'' 0 (add_property_map ''echo'' 0 ps)))) name
    = Some (channel_default ps name, channel_before ps name)"
  using assms unfolding in_channel_names
  by (elim disjE)
    (simp_all add: ps_maps_add_property_map channel_default_def channel_before_def
      split: option.split)

lemma length_channel_before:
  assumes "channels_fit ps" and "name \<in> set channel_names"
  shows "length (channel_before ps name) = length (ps_points ps)"
  using assms
  by (auto simp add: channels_fit_def list_all_iff channel_before_def split: option.splits)

lemma get_channel:
  "ps_maps ps name = Some (d, vs) \<Longrightarrow> get name it ps = vs ! it"
  by (simp add: get_def)

lemma all_nth_zero:
  "length vs = n \<Longrightarrow> (\<forall>it\<in>set [0..<n]. vs ! it = (0::8 word)) \<longleftrightarrow> (\<forall>v\<in>set vs. v = 0)"
  by (auto simp add: all_set_conv_all_nth)

lemma after_reading:
  assumes "channels_fit ps" and "name \<in> set channel_names"
  shows "ps_maps (fold read_point stream
            (add_property_map ''blue'' 0 (add_property_map ''green'' 0
              (add_property_map ''red'' 0 (add_property_map ''echo'' 0 ps))))) name
          = Some (channel_default ps name, channel_before ps name @ map (stored name) stream)
       \<and> length (ps_points (fold read_point stream
            (add_property_map ''blue'' 0 (add_property_map ''green'' 0
              (add_property_map ''red'' 0 (add_property_map ''echo'' 0 ps))))))
          = length (ps_points ps) + length stream"
  using fold_read_point [OF prologue_maps [OF assms(2), of ps] _ assms(2), of stream]
    length_channel_before [OF assms]
  by (simp only: prologue_points)

lemma ps_maps_remove_property_map:
  "ps_maps (remove_property_map name ps) name' = (if name' = name then None else ps_maps ps name')"
  by (simp add: remove_property_map_def)

lemma ps_maps_result:
  "ps_maps (snd (read_las_point_set stream ps)) name =
     (let ps1 = fold read_point stream
            (add_property_map ''blue'' 0 (add_property_map ''green'' 0
              (add_property_map ''red'' 0 (add_property_map ''echo'' 0 ps))));
          flags = scan_points ps1 [0..<length (ps_points ps1)] (True, True)
      in if name = ''echo'' \<and> fst flags then None
         else if (name = ''red'' \<or> name = ''green'' \<or> name = ''blue'') \<and> snd flags then None
         else ps_maps ps1 name)"
  by (simp add: read_las_point_set_def Let_def ps_maps_remove_property_map)

lemma read_las_channels:
  assumes "channels_fit point_set"
  shows "ps_maps (snd (read_las_point_set stream point_set)) ''echo'' =
           (if \<forall>v\<in>set (channel_before point_set ''echo'' @ map (stored ''echo'') stream). v = 0
            then None
            else Some (channel_default point_set ''echo'',
                       channel_before point_set ''echo'' @ map (stored ''echo'') stream))
       \<and> (\<forall>name\<in>{''red'', ''green'', ''blue''}.
            ps_maps (snd (read_las_point_set stream point_set)) name =
              (if \<forall>v\<in>set (channel_before point_set ''red'' @ map (stored ''red'') stream)
                      \<union> set (channel_before point_set ''green'' @ map (stored ''green'') stream)
                      \<union> set (channel_before point_set ''blue'' @ map (stored ''blue'') stream).
                    v = 0
               then None
               else Some (channel_default point_set name,
                          channel_before point_set name @ map (stored name) stream)))"
proof -
  define ps1 where "ps1 = fold read_point stream
            (add_property_map ''blue'' 0 (add_property_map ''green'' 0
              (add_property_map ''red'' 0 (add_property_map ''echo'' 0 point_set))))"
  define n where "n = length (ps_points ps1)"
  define vals where "vals = (\<lambda>name. channel_before point_set name @ map (stored name) stream)"
  have names: "''echo'' \<in> set channel_names" "''red'' \<in> set channel_names"
    "''green'' \<in> set channel_names" "''blue'' \<in> set channel_names"
    by (simp_all add: channel_names_def)
  have maps: "ps_maps ps1 name = Some (channel_default point_set name, vals name)"
    and len: "length (vals name) = n" if "name \<in> set channel_names" for name
    using after_reading [OF assms that, of stream] length_channel_before [OF assms that]
    by (simp_all add: ps1_def vals_def n_def)
  have gets: "get name it ps1 = vals name ! it" if "name \<in> set channel_names" for name it
    using maps [OF that] by (rule get_channel)
  have zero: "(\<forall>it\<in>set [0..<n]. vals name ! it = 0) \<longleftrightarrow> (\<forall>v\<in>set (vals name). v = 0)"
    if "name \<in> set channel_names" for name
    using len [OF that] by (rule all_nth_zero)
  have f1: "fst (scan_points ps1 [0..<n] (True, True)) \<longleftrightarrow> (\<forall>v\<in>set (vals ''echo''). v = 0)"
    by (simp only: scan_points_eq fst_conv simp_thms gets [OF names(1)] zero [OF names(1)])
  have "snd (scan_points ps1 [0..<n] (True, True)) \<longleftrightarrow>
          (\<forall>it\<in>set [0..<n]. vals ''red'' ! it = 0)
          \<and> (\<forall>it\<in>set [0..<n]. vals ''green'' ! it = 0)
          \<and> (\<forall>it\<in>set [0..<n]. vals ''blue'' ! it = 0)"
    by (simp only: scan_points_eq snd_conv simp_thms gets [OF names(2)] gets [OF names(3)]
        gets [OF names(4)]) blast
  then have f2: "snd (scan_points ps1 [0..<n] (True, True)) \<longleftrightarrow>
      (\<forall>v\<in>set (vals ''red'') \<union> set (vals ''green'') \<union> set (vals ''blue''). v = 0)"
    by (simp only: zero [OF names(2)] zero [OF names(3)] zero [OF names(4)]) blast
  have res: "ps_maps (snd (read_las_point_set stream point_set)) name =
      (if name = ''echo'' \<and> fst (scan_points ps1 [0..<n] (True, True)) then None
       else if (name = ''red'' \<or> name = ''green'' \<or> name = ''blue'')
                \<and> snd (scan_points ps1 [0..<n] (True, True)) then None
       else ps_maps ps1 name)" for name
    by (simp only: ps_maps_result Let_def ps1_def n_def)
  have echo: "ps_maps (snd (read_las_point_set stream point_set)) ''echo'' =
      (if \<forall>v\<in>set (vals ''echo''). v = 0 then None
       else Some (channel_default point_set ''echo'', vals ''echo''))"
    by (simp add: res f1 maps [OF names(1)])
  have colour: "ps_maps (snd (read_las_point_set stream point_set)) name =
      (if \<forall>v\<in>set (vals ''red'') \<union> set (vals ''green'') \<union> set (vals ''blue''). v = 0 then None
       else Some (channel_default point_set name, vals name))"
    if "name \<in> {''red'', ''green'', ''blue''}" for name
  proof -
    from that have "name \<in> set channel_names" "name \<noteq> ''echo''"
      "name = ''red'' \<or> name = ''green'' \<or> name = ''blue''"
      by (auto simp add: channel_names_def)
    then show ?thesis
      by (simp only: res f2 maps simp_thms if_False if_True)
  qed
  from echo colour show ?thesis
    unfolding vals_def by blast
qed

lemma empty_point_set_facts:
  "channels_fit empty_point_set"
  "channel_before empty_point_set name = []"
  "channel_default empty_point_set name = 0"
  by (simp_all add: channels_fit_def channel_names_def channel_before_def channel_default_def
      empty_point_set_def)

lemma stored_green_point:
  "stored ''echo'' green_point = 1"
  "stored ''red'' green_point = 0"
  "stored ''green'' green_point = 1"
  "stored ''blue'' green_point = 0"
  by (simp_all add: stored_def green_point_def drop_bit_eq_div)

lemma stored_plain_point:
  "stored ''echo'' plain_point = 0"
  "stored ''red'' plain_point = 0"
  "stored ''green'' plain_point = 0"
  "stored ''blue'' plain_point = 0"
  by (simp_all add: stored_def plain_point_def drop_bit_eq_div)

text \<open>
  C8 (as the code has it).  For a point set whose channels have one value per point:
  the echo channel is removed exactly when all its values (those the set held and those
  stored for the points read) are zero, and is otherwise kept with these values; the
  three colour channels are removed together, exactly when all values of all three are
  zero, and are otherwise all kept.  So a colour channel that is uniformly zero stays
  when another colour channel has a non-zero value.
\<close>

theorem channels_dropped_together:
  assumes "channels_fit point_set"
  shows "ps_maps (snd (read_las_point_set stream point_set)) ''echo'' =
           (if \<forall>v\<in>set (channel_before point_set ''echo'' @ map (stored ''echo'') stream). v = 0
            then None
            else Some (channel_default point_set ''echo'',
                       channel_before point_set ''echo'' @ map (stored ''echo'') stream))
       \<and> (\<forall>name\<in>{''red'', ''green'', ''blue''}.
            ps_maps (snd (read_las_point_set stream point_set)) name =
              (if \<forall>v\<in>set (channel_before point_set ''red'' @ map (stored ''red'') stream)
                      \<union> set (channel_before point_set ''green'' @ map (stored ''green'') stream)
                      \<union> set (channel_before point_set ''blue'' @ map (stored ''blue'') stream).
                    v = 0
               then None
               else Some (channel_default point_set name,
                          channel_before point_set name @ map (stored name) stream)))"
  using assms by (rule read_las_channels)

theorem channels_dropped_together_witness:
  "ps_maps (snd (read_las_point_set [green_point] empty_point_set)) ''echo'' = Some (0, [1])
   \<and> ps_maps (snd (read_las_point_set [green_point] empty_point_set)) ''green'' = Some (0, [1])
   \<and> ps_maps (snd (read_las_point_set [plain_point] empty_point_set)) ''echo'' = None
   \<and> ps_maps (snd (read_las_point_set [plain_point] empty_point_set)) ''green'' = None"
  using channels_dropped_together [OF empty_point_set_facts(1), of "[green_point]"]
    channels_dropped_together [OF empty_point_set_facts(1), of "[plain_point]"]
  by (simp add: empty_point_set_facts stored_green_point stored_plain_point)

text \<open>
  The claim as stated fails: after reading one point whose only non-zero colour
  component is green, the red channel holds nothing but zero and is still there.
\<close>

theorem uniform_red_channel_kept:
  "ps_maps (snd (read_las_point_set [green_point] empty_point_set)) ''red'' = Some (0, [0])"
  using read_las_channels [OF empty_point_set_facts(1), of "[green_point]"]
  by (simp add: empty_point_set_facts stored_green_point)

text \<open>
  C10.  The value returned by \<open>read_las_point_set\<close> is \<open>true\<close> for every stream of
  points and every point set.
\<close>

theorem read_las_returns_true: "fst (read_las_point_set stream point_set) = True"
  by (simp add: read_las_point_set_def Let_def)

theorem read_las_returns_true_witness:
  "fst (read_las_point_set [green_point, plain_point] empty_point_set)"
  using read_las_returns_true [of "[green_point, plain_point]" empty_point_set] by simp

section \<open>Properties of the evaluation\<close>

lemma square_nth: "square m n \<Longrightarrow> i < n \<Longrightarrow> length (m ! i) = n"
  by (simp add: square_def list_all_length)

lemma square_length: "square m n \<Longrightarrow> length m = n"
  by (simp add: square_def)

lemma square_Evaluation_new: "square (m_confusion (Evaluation_new labels)) (length labels)"
  by (simp add: Evaluation_new_def init_def resize_def square_def list_all_iff)

lemma m_labels_Evaluation_new [simp]: "m_labels (Evaluation_new labels) = labels"
  by (simp add: Evaluation_new_def init_def)

lemma cell_square: "square m n \<Longrightarrow> i < n \<Longrightarrow> j < n \<Longrightarrow> cell m i j = Inr (m ! i ! j)"
  by (simp add: cell_def square_nth square_length)

lemma incr_cell_square:
  assumes "square m n" and "i < n" and "j < n"
  shows "incr_cell m i j = Inr (m[i := (m ! i)[j := m ! i ! j + 1]])"
    and "square (m[i := (m ! i)[j := m ! i ! j + 1]]) n"
proof -
  from assms show "incr_cell m i j = Inr (m[i := (m ! i)[j := m ! i ! j + 1]])"
    by (simp add: incr_cell_def square_nth square_length)
  from assms show "square (m[i := (m ! i)[j := m ! i ! j + 1]]) n"
    by (auto simp add: square_def list_all_length nth_list_update)
qed


lemma size_t_of_int_eq: "size_t_of_int v = nat (sint v mod 2 ^ 64)"
proof -
  have "uint (scast v :: 64 word) = sint v mod 2 ^ 64"
    by (simp only: scast_eq uint_word_of_int) simp
  then show ?thesis
    by (simp only: size_t_of_int_def unat_eq_nat_uint)
qed

lemma sint_int_range: "- (2 ^ 31) \<le> sint (v :: 32 word)" "sint (v :: 32 word) < 2 ^ 31"
  using sint_ge [of v] sint_lt [of v] by simp_all


lemma size_t_of_int_nonneg: "0 \<le> sint v \<Longrightarrow> size_t_of_int v = nat (sint v)"
  using sint_int_range(2) [of v] by (simp add: size_t_of_int_eq)


lemma valid_index_size_t:
  "valid_index n v \<Longrightarrow> v \<noteq> - 1 \<Longrightarrow> size_t_of_int v < n"
  by (auto simp add: valid_index_def size_t_of_int_nonneg)








lemma round_to_float_0: "round_to_float 0 = 0"
  by (simp add: round_to_float_def)

lemma round_to_float_1: "round_to_float 1 = 1"
  by code_simp

lemma binade_le:
  assumes "0 < q"
  shows "2 powi (binade q) \<le> q"
proof -
  obtain a b where ab: "quotient_of q = (a, b)"
    by (cases "quotient_of q")
  have b: "0 < b" using ab by (rule quotient_of_denom_pos)
  have q: "q = of_int a / of_int b" using ab by (rule quotient_of_div)
  have a: "0 < a"
    using assms b unfolding q by (simp add: zero_less_divide_iff)
  define d where "d = bitlen a - bitlen b"
  have e: "binade q = (if of_int b * 2 powi d \<le> (of_int a :: rat) then d else d - 1)"
    by (simp add: binade_def ab Let_def d_def)
  show ?thesis
  proof (cases "of_int b * 2 powi d \<le> (of_int a :: rat)")
    case True
    then have "2 powi d \<le> (of_int a :: rat) / of_int b"
      using b by (simp add: pos_le_divide_eq mult.commute)
    then have "2 powi d \<le> q" by (simp only: q)
    moreover from True have "binade q = d" by (simp only: e if_True)
    ultimately show ?thesis by simp
  next
    case False
    from bitlen_bounds [OF a] have la: "2 ^ nat (bitlen a - 1) \<le> a" by simp
    from bitlen_bounds [OF b] have lb: "b < 2 ^ nat (bitlen b)" by simp
    have pa: "1 \<le> bitlen a"
    proof (rule ccontr)
      assume "\<not> 1 \<le> bitlen a"
      then have "nat (bitlen a) = 0" by simp
      with bitlen_bounds [OF a] have "a < 1" by simp
      with a show False by simp
    qed
    have pb: "0 \<le> bitlen b" by (simp add: bitlen_def)
    have "d - 1 = (bitlen a - 1) - bitlen b" by (simp add: d_def)
    then have "(2::rat) powi (d - 1) = 2 powi ((bitlen a - 1) - bitlen b)" by (simp only:)
    also have "\<dots> = 2 powi (bitlen a - 1) / 2 powi (bitlen b)"
      by (rule power_int_diff) simp
    also have "\<dots> = 2 ^ nat (bitlen a - 1) / 2 ^ nat (bitlen b)"
      using pa pb by (simp add: power_int_def)
    also have "\<dots> \<le> of_int a / 2 ^ nat (bitlen b)"
    proof -
      have "(2::rat) ^ nat (bitlen a - 1) = of_int (2 ^ nat (bitlen a - 1))" by simp
      also have "\<dots> \<le> of_int a" using la by (simp only: of_int_le_iff)
      finally show ?thesis by (simp add: divide_right_mono)
    qed
    also have "\<dots> \<le> of_int a / of_int b"
    proof -
      have "(of_int b :: rat) \<le> of_int (2 ^ nat (bitlen b))"
        using lb by (simp only: of_int_le_iff)
      then have "(of_int b :: rat) \<le> 2 ^ nat (bitlen b)" by simp
      then show ?thesis
        using a b by (intro divide_left_mono) simp_all
    qed
    finally have "2 powi (d - 1) \<le> q" by (simp only: q)
    moreover from False have "binade q = d - 1" by (simp only: e if_False)
    ultimately show ?thesis by simp
  qed
qed

lemma round_half_even_floor: "\<lfloor>m\<rfloor> \<le> round_half_even m"
  by (simp add: round_half_even_def Let_def)

lemma round_to_float_pos:
  assumes "0 < q"
  shows "0 < round_to_float q"
proof -
  define u :: rat where "u = 2 powi (binade q - 23)"
  have u: "0 < u" by (simp add: u_def)
  have "u = 2 powi (binade q) / 2 ^ 23"
    by (simp add: u_def power_int_diff)
  also have "\<dots> \<le> q / 2 ^ 23"
    using binade_le [OF assms] by (simp add: divide_right_mono)
  also have "\<dots> \<le> q" using assms by simp
  finally have "u \<le> q" .
  then have "1 \<le> q / u" using u by (simp add: pos_le_divide_eq)
  then have "1 \<le> \<lfloor>q / u\<rfloor>" by simp
  with round_half_even_floor [of "q / u"] have "0 < round_half_even (q / u)" by linarith
  then have "0 < of_int (round_half_even (q / u)) * u"
    using u by simp
  with assms show ?thesis by (simp add: round_to_float_def u_def)
qed

lemma float_of_size_t_eq_0: "float_of_size_t n = 0 \<longleftrightarrow> n = 0"
proof
  assume z: "float_of_size_t n = 0"
  show "n = 0"
  proof (rule ccontr)
    assume "n \<noteq> 0"
    then have "0 < unat n" by (simp add: unat_gt_0)
    then have "0 < (of_nat (unat n) :: rat)" by (simp only: of_nat_0_less_iff)
    from round_to_float_pos [OF this] z show False by (simp only: float_of_size_t_def)
  qed
next
  assume "n = 0"
  then show "float_of_size_t n = 0" by (simp add: float_of_size_t_def round_to_float_0)
qed

lemma float_of_size_t_0: "float_of_size_t 0 = 0"
  by (simp add: float_of_size_t_eq_0)

lemma div_by_float_simps:
  "div_by_float 0 0 = NaN"
  "b \<noteq> 0 \<Longrightarrow> div_by_float 0 b = Finite 0"
  "a \<noteq> 0 \<Longrightarrow> div_by_float a a = Finite 1"
  by (simp_all add: div_by_float_def float_of_size_t_eq_0 float_of_size_t_0 round_to_float_0
      round_to_float_1)

lemma div_by_float_NaN: "div_by_float a b = NaN \<longleftrightarrow> a = 0 \<and> b = 0"
  by (simp add: div_by_float_def float_of_size_t_eq_0)

lemma has_ground_truth_rows_eq:
  assumes "square m n" and "idx < n" and "\<forall>i\<in>set rows. i < n"
  shows "has_ground_truth_rows m idx rows = Inr (\<exists>i\<in>set rows. m ! i ! idx \<noteq> 0)"
  using assms(3)
proof (induction rows)
  case Nil
  then show ?case by simp
next
  case (Cons i rows)
  then have "cell m i idx = Inr (m ! i ! idx)"
    using cell_square [OF assms(1) _ assms(2), of i] by simp
  with Cons show ?case by simp
qed

lemma label_has_ground_truth_eq:
  assumes "square (m_confusion e) (length (m_labels e))" and "idx < length (m_labels e)"
  shows "label_has_ground_truth e idx
           = Inr (\<exists>i<length (m_labels e). m_confusion e ! i ! idx \<noteq> 0)"
  using has_ground_truth_rows_eq [OF assms, of "[0..<length (m_labels e)]"]
  by (simp add: label_has_ground_truth_def Bex_def)

lemma sum_cells_eq:
  assumes "square m n" and "\<forall>ij\<in>set cells. fst ij < n \<and> snd ij < n"
  shows "sum_cells m cells acc = Inr (acc + sum_list (map (\<lambda>ij. m ! fst ij ! snd ij) cells))"
  using assms(2)
proof (induction cells arbitrary: acc)
  case Nil
  then show ?case by simp
next
  case (Cons ij cells)
  then have "cell m (fst ij) (snd ij) = Inr (m ! fst ij ! snd ij)"
    using cell_square [OF assms(1), of "fst ij" "snd ij"] by simp
  with Cons show ?case by (simp add: add.assoc)
qed

lemma precision_no_ground_truth:
  assumes "square (m_confusion e) (length (m_labels e))"
    and "label_index e label < length (m_labels e)"
    and "\<forall>i<length (m_labels e). m_confusion e ! i ! label_index e label = 0"
  shows "precision e label = Inr NaN" and "recall e label = Inr NaN"
proof -
  have "label_has_ground_truth e (label_index e label) = Inr False"
    using label_has_ground_truth_eq [OF assms(1,2)] assms(3) by simp
  then show "precision e label = Inr NaN" and "recall e label = Inr NaN"
    by (simp_all add: precision_def recall_def Let_def)
qed

lemma sum_list_upt_delta:
  fixes f :: "nat \<Rightarrow> 64 word"
  assumes "idx < n" and "\<forall>i<n. i \<noteq> idx \<longrightarrow> f i = 0"
  shows "sum_list (map f [0..<n]) = f idx"
proof -
  have "sum_list (map f [0..<n]) = sum f {0..<n}"
    by (simp add: interv_sum_list_conv_sum_set_nat)
  also have "\<dots> = sum (\<lambda>i. if i = idx then f idx else 0) {0..<n}"
    using assms(2) by (intro sum.cong) auto
  also have "\<dots> = f idx"
    using assms(1) by simp
  finally show ?thesis .
qed

lemma sum_list_concat:
  fixes xss :: "64 word list list"
  shows "sum_list (concat xss) = sum_list (map sum_list xss)"
  by (induction xss) simp_all

lemma iou_cells_sum:
  fixes m :: "64 word list list"
  assumes "\<forall>i<n. m ! i ! idx = 0" and "idx < n" and "length (m ! idx) = n"
  shows "sum_list (map (\<lambda>ij. m ! fst ij ! snd ij)
           (concat (map (\<lambda>i. (i, idx) # (if i \<noteq> idx then [(idx, i)] else [])) [0..<n])))
         = sum_list (m ! idx)"
proof -
  have "sum_list (map (\<lambda>ij. m ! fst ij ! snd ij)
           (concat (map (\<lambda>i. (i, idx) # (if i \<noteq> idx then [(idx, i)] else [])) [0..<n])))
      = sum_list (map (\<lambda>i. m ! i ! idx + (if i \<noteq> idx then m ! idx ! i else 0)) [0..<n])"
  proof -
    have "(\<Sum>ij\<leftarrow>(if i \<noteq> idx then [(idx, i)] else []). m ! fst ij ! snd ij)
        = (if i \<noteq> idx then m ! idx ! i else 0)" for i
      by simp
    then show ?thesis
      by (simp add: map_concat comp_def sum_list_concat)
  qed
  also have "\<dots> = sum_list (map (\<lambda>i. m ! idx ! i) [0..<n])"
    using assms(1,2) by (intro arg_cong [where f = sum_list] map_cong) auto
  also have "map (\<lambda>i. m ! idx ! i) [0..<n] = m ! idx"
    using map_nth [of "m ! idx"] by (simp only: assms(3))
  finally show ?thesis .
qed

lemma iou_no_ground_truth:
  assumes "square (m_confusion e) (length (m_labels e))"
    and "label_index e label < length (m_labels e)"
    and "\<forall>i<length (m_labels e). m_confusion e ! i ! label_index e label = 0"
  shows "intersection_over_union e label
           = Inr (if sum_list (m_confusion e ! label_index e label) = 0 then NaN else Finite 0)"
proof -
  define n where "n = length (m_labels e)"
  define idx where "idx = label_index e label"
  define m where "m = m_confusion e"
  note sq = assms(1) [folded n_def m_def]
  have idx: "idx < n" using assms(2) by (simp add: idx_def n_def)
  have col: "\<forall>i<n. m ! i ! idx = 0" using assms(3) by (simp add: idx_def n_def m_def)
  have cells: "\<forall>ij\<in>set (concat (map (\<lambda>i. (i, idx) # (if i \<noteq> idx then [(idx, i)] else []))
                  [0..<n])). fst ij < n \<and> snd ij < n"
    using idx by auto
  have tot: "sum_cells m (concat (map (\<lambda>i. (i, idx) # (if i \<noteq> idx then [(idx, i)] else []))
                  [0..<n])) 0 = Inr (sum_list (m ! idx))"
    using sum_cells_eq [OF sq cells, of 0]
      iou_cells_sum [OF col idx square_nth [OF sq idx]] by simp
  have tp: "cell m idx idx = Inr 0"
    using cell_square [OF sq idx idx] col idx by simp
  show ?thesis
    using tot tp
    by (simp add: intersection_over_union_def Let_def div_by_float_simps
        flip: n_def idx_def m_def)
qed

lemma two_labels_eq:
  "m_labels two_labels = [''a'', ''b'']"
  "m_confusion two_labels = [[0, 0], [0, 0]]"
  "label_index two_labels ''a'' = 0"
  "label_index two_labels ''b'' = 1"
  by (simp_all add: two_labels_def Evaluation_new_def init_def resize_def label_index_def
      upt_rec [of 0] upt_rec [of 1] upt_rec [of "Suc 0"])

lemma size_t_of_int_small:
  "size_t_of_int 0 = 0" "size_t_of_int 1 = 1"
  by (simp_all add: size_t_of_int_def)

lemma misclassified_eq:
  "m_labels misclassified = [''a'', ''b'']"
  "m_confusion misclassified = [[0, 0], [1, 0]]"
  "label_index misclassified ''a'' = 0"
  "label_index misclassified ''b'' = 1"
  using two_labels_eq(3,4)
  by (simp_all add: misclassified_def append_eval_def incr_cell_def two_labels_eq(1,2)
      size_t_of_int_small label_index_def)

lemma misclassified_square:
  "square (m_confusion misclassified) (length (m_labels misclassified))"
  by (simp add: misclassified_eq square_def)

lemma misclassified_column:
  "\<forall>i<length (m_labels misclassified).
      m_confusion misclassified ! i ! label_index misclassified ''b'' = 0"
  by (simp add: misclassified_eq less_Suc_eq)

text \<open>
  C6 (as the code has it).  For a label with no ground-truth occurrence (its column of
  the confusion matrix is zero), \<open>precision\<close> and \<open>recall\<close> return NaN.
  \<open>intersection_over_union\<close> has no such test: it returns NaN only when the
  \<open>std::size_t\<close> sum of the label's row (the items classified with that label) is
  zero as well, and 0 otherwise.
\<close>

theorem no_ground_truth_metrics:
  assumes "square (m_confusion e) (length (m_labels e))"
    and "label_index e label < length (m_labels e)"
    and "\<forall>i<length (m_labels e). m_confusion e ! i ! label_index e label = 0"
  shows "precision e label = Inr NaN \<and> recall e label = Inr NaN
       \<and> intersection_over_union e label
           = Inr (if sum_list (m_confusion e ! label_index e label) = 0 then NaN else Finite 0)"
  using precision_no_ground_truth [OF assms] iou_no_ground_truth [OF assms]
  by simp

theorem no_ground_truth_metrics_witness:
  "precision misclassified ''b'' = Inr NaN \<and> recall misclassified ''b'' = Inr NaN
   \<and> intersection_over_union misclassified ''b'' = Inr (Finite 0)"
proof -
  have lt: "label_index misclassified ''b'' < length (m_labels misclassified)"
    by (simp add: misclassified_eq)
  from no_ground_truth_metrics [OF misclassified_square lt misclassified_column]
  show ?thesis by (simp add: misclassified_eq)
qed

text \<open>
  The claim as stated fails for \<open>intersection_over_union\<close>: with one item of ground
  truth \<open>a\<close> classified as \<open>b\<close>, the label \<open>b\<close> has no ground truth and its
  intersection over union is 0, not NaN.
\<close>

theorem iou_zero_without_ground_truth:
  "label_has_ground_truth misclassified (label_index misclassified ''b'') = Inr False
   \<and> intersection_over_union misclassified ''b'' = Inr (Finite 0)
   \<and> intersection_over_union misclassified ''b'' \<noteq> Inr NaN"
proof -
  have lt: "label_index misclassified ''b'' < length (m_labels misclassified)"
    by (simp add: misclassified_eq)
  have "label_has_ground_truth misclassified (label_index misclassified ''b'') = Inr False"
    using label_has_ground_truth_eq [OF misclassified_square lt] misclassified_column
    by simp
  moreover have "intersection_over_union misclassified ''b'' = Inr (Finite 0)"
    using iou_no_ground_truth [OF misclassified_square lt misclassified_column]
    by (simp add: misclassified_eq)
  ultimately show ?thesis by simp
qed

lemma m_confusion_Evaluation_new:
  "m_confusion (Evaluation_new labels) = replicate (length labels) (replicate (length labels) 0)"
  by (simp add: Evaluation_new_def init_def resize_def)

lemma diagonal_Evaluation_new: "diagonal (m_confusion (Evaluation_new labels)) (length labels)"
  by (simp add: m_confusion_Evaluation_new diagonal_def)

lemma true_positives_Evaluation_new:
  "true_positives (m_confusion (Evaluation_new labels)) (length labels) = 0"
proof -
  have "map (\<lambda>i. replicate (length labels) (replicate (length labels) (0 :: 64 word)) ! i ! i)
          [0..<length labels] = map (\<lambda>i. 0) [0..<length labels]"
    by (intro map_cong) simp_all
  then have "true_positives (m_confusion (Evaluation_new labels)) (length labels)
      = sum_list (map (\<lambda>i. 0) [0..<length labels])"
    by (simp only: true_positives_def m_confusion_Evaluation_new)
  then show ?thesis by simp
qed

lemma true_positives_incr:
  assumes "square m n" and "i < n"
  shows "true_positives (m[i := (m ! i)[i := m ! i ! i + 1]]) n = true_positives m n + 1"
proof -
  have len: "length m = n" "length (m ! i) = n"
    using assms by (simp_all add: square_length square_nth)
  have "true_positives (m[i := (m ! i)[i := m ! i ! i + 1]]) n
      = sum (\<lambda>k. m[i := (m ! i)[i := m ! i ! i + 1]] ! k ! k) {0..<n}"
    by (simp add: true_positives_def interv_sum_list_conv_sum_set_nat)
  also have "\<dots> = sum (\<lambda>k. m ! k ! k + (if k = i then 1 else 0)) {0..<n}"
    using len assms(2) by (intro sum.cong) (auto simp add: nth_list_update)
  also have "\<dots> = sum (\<lambda>k. m ! k ! k) {0..<n} + 1"
    using assms(2) by (simp add: sum.distrib)
  finally show ?thesis
    by (simp add: true_positives_def interv_sum_list_conv_sum_set_nat)
qed

lemma diagonal_incr:
  assumes "square m n" and "diagonal m n" and "i < n"
  shows "diagonal (m[i := (m ! i)[i := m ! i ! i + 1]]) n"
  using assms
  by (auto simp add: diagonal_def nth_list_update square_length square_nth)

lemma append_items_same:
  assumes "square m n" and "diagonal m n" and "list_all (valid_index n) xs"
  shows "\<exists>m'. append_items m xs xs = Inr m' \<and> square m' n \<and> diagonal m' n
            \<and> true_positives m' n
                = true_positives m n + of_nat (length (filter (\<lambda>v. v \<noteq> - 1) xs))"
  using assms
proof (induction xs arbitrary: m)
  case Nil
  then show ?case by simp
next
  case (Cons v xs)
  show ?case
  proof (cases "v = - 1")
    case True
    with Cons.IH [OF Cons.prems(1,2)] Cons.prems(3) show ?thesis by simp
  next
    case False
    with Cons.prems(3) have i: "size_t_of_int v < n"
      by (simp add: valid_index_size_t)
    let ?m = "m[size_t_of_int v := (m ! size_t_of_int v)
                [size_t_of_int v := m ! size_t_of_int v ! size_t_of_int v + 1]]"
    note inc = incr_cell_square [OF Cons.prems(1) i i]
    from Cons.IH [OF inc(2) diagonal_incr [OF Cons.prems(1,2) i]] Cons.prems(3)
    obtain m' where m': "append_items ?m xs xs = Inr m'" "square m' n" "diagonal m' n"
      "true_positives m' n
         = true_positives ?m n + of_nat (length (filter (\<lambda>v. v \<noteq> - 1) xs))"
      by auto
    from m'(4) have "true_positives m' n
        = true_positives m n + of_nat (length (filter (\<lambda>v. v \<noteq> - 1) (v # xs)))"
      using False by (simp add: true_positives_incr [OF Cons.prems(1) i])
    with m'(1,2,3) inc(1) False show ?thesis by simp
  qed
qed

lemma all_cells_sum:
  fixes m :: "64 word list list"
  assumes "diagonal m n"
  shows "sum_list (map (\<lambda>ij. m ! fst ij ! snd ij)
           (concat (map (\<lambda>i. map (\<lambda>j. (i, j)) [0..<n]) [0..<n])))
         = true_positives m n"
proof -
  have "sum_list (map (\<lambda>ij. m ! fst ij ! snd ij)
           (concat (map (\<lambda>i. map (\<lambda>j. (i, j)) [0..<n]) [0..<n])))
      = sum_list (map (\<lambda>i. sum_list (map (\<lambda>j. m ! i ! j) [0..<n])) [0..<n])"
    by (simp add: map_concat comp_def sum_list_concat)
  also have "\<dots> = sum_list (map (\<lambda>i. m ! i ! i) [0..<n])"
  proof (intro arg_cong [where f = sum_list] map_cong refl)
    fix i assume "i \<in> set [0..<n]"
    then have i: "i < n" by simp
    show "sum_list (map (\<lambda>j. m ! i ! j) [0..<n]) = m ! i ! i"
      using assms i by (intro sum_list_upt_delta) (auto simp add: diagonal_def)
  qed
  finally show ?thesis by (simp add: true_positives_def)
qed

lemma accuracy_diagonal:
  assumes "square (m_confusion e) (length (m_labels e))"
    and "diagonal (m_confusion e) (length (m_labels e))"
  shows "accuracy e = Inr (div_by_float (true_positives (m_confusion e) (length (m_labels e)))
                                        (true_positives (m_confusion e) (length (m_labels e))))"
proof -
  define n where "n = length (m_labels e)"
  define m where "m = m_confusion e"
  note sq = assms(1) [folded n_def m_def] and dg = assms(2) [folded n_def m_def]
  have 1: "sum_cells m (map (\<lambda>i. (i, i)) [0..<n]) 0 = Inr (true_positives m n)"
    using sum_cells_eq [OF sq, of "map (\<lambda>i. (i, i)) [0..<n]" 0]
    by (simp add: true_positives_def comp_def)
  have 2: "sum_cells m (concat (map (\<lambda>i. map (\<lambda>j. (i, j)) [0..<n]) [0..<n])) 0
      = Inr (true_positives m n)"
    using sum_cells_eq [OF sq, of "concat (map (\<lambda>i. map (\<lambda>j. (i, j)) [0..<n]) [0..<n])" 0]
      all_cells_sum [OF dg]
    by auto
  show ?thesis
    using 1 2 by (simp add: accuracy_def flip: n_def m_def)
qed

lemma of_nat_word_nonzero:
  assumes "0 < k" and "k < 2 ^ 64"
  shows "(of_nat k :: 64 word) \<noteq> 0"
  using assms by (simp add: word_of_nat_eq_0_iff dvd_def) (metis nat_dvd_not_less dvd_def)

text \<open>
  C7 (as the code has it).  When the same range of valid label indices, shorter than
  \<open>2^64\<close> and with at least one value other than \<open>-1\<close>, is appended as ground truth
  and as result to a new evaluation, \<open>accuracy\<close> returns exactly 1.
\<close>

theorem accuracy_one:
  assumes "list_all (valid_index (length labels)) ground_truth"
    and "\<exists>v\<in>set ground_truth. v \<noteq> - 1"
    and "length ground_truth < 2 ^ 64"
    and "result = ground_truth"
  shows "\<exists>e'. append_eval (Evaluation_new labels) ground_truth result = Inr e'
              \<and> accuracy e' = Inr (Finite 1)"
proof -
  define n where "n = length labels"
  define k where "k = length (filter (\<lambda>v. v \<noteq> - 1) ground_truth)"
  from append_items_same [OF square_Evaluation_new diagonal_Evaluation_new assms(1)]
  obtain m' where m': "append_items (m_confusion (Evaluation_new labels)) ground_truth ground_truth
        = Inr m'" "square m' n" "diagonal m' n" "true_positives m' n = of_nat k"
    by (auto simp add: true_positives_Evaluation_new n_def k_def)
  define e' where "e' = (Evaluation_new labels)\<lparr>m_confusion := m'\<rparr>"
  have e': "m_confusion e' = m'" "length (m_labels e') = n"
    by (simp_all add: e'_def n_def)
  have app: "append_eval (Evaluation_new labels) ground_truth result = Inr e'"
    using m'(1) by (simp add: append_eval_def assms(4) e'_def)
  have "0 < k"
    using assms(2) by (auto simp add: k_def filter_empty_conv)
  moreover have "k < 2 ^ 64"
    using length_filter_le [of "\<lambda>v. v \<noteq> - 1" ground_truth] assms(3)
    unfolding k_def by (rule le_less_trans)
  ultimately have nz: "(of_nat k :: 64 word) \<noteq> 0"
    by (rule of_nat_word_nonzero)
  have "accuracy e' = Inr (div_by_float (of_nat k) (of_nat k))"
    using accuracy_diagonal [of e'] m'(2,3,4) by (simp add: e')
  with nz have "accuracy e' = Inr (Finite 1)"
    by (simp add: div_by_float_simps)
  with app show ?thesis by blast
qed

theorem accuracy_one_witness:
  "\<exists>e'. append_eval two_labels [0, 1, 1, - 1] [0, 1, 1, - 1] = Inr e'
         \<and> accuracy e' = Inr (Finite 1)"
proof -
  have 1: "list_all (valid_index (length [''a'', ''b''])) [0, 1, 1, - 1]"
    by (simp add: valid_index_def)
  have 2: "\<exists>v\<in>set [0, 1, 1, - 1 :: 32 word]. v \<noteq> - 1" by simp
  have 3: "length [0, 1, 1, - 1 :: 32 word] < 2 ^ 64" by simp
  from accuracy_one [OF 1 2 3 refl] show ?thesis by (simp only: two_labels_def)
qed

text \<open>
  The claim as stated fails when no item is counted: for empty ranges, or ranges that
  hold only the sentinel, \<open>accuracy\<close> divides zero by zero and returns NaN.
\<close>

theorem accuracy_nothing_counted:
  "append_eval two_labels [] [] = Inr two_labels
   \<and> append_eval two_labels [- 1] [- 1] = Inr two_labels
   \<and> accuracy two_labels = Inr NaN"
proof -
  have "accuracy two_labels = Inr (div_by_float 0 0)"
    using accuracy_diagonal [of two_labels] square_Evaluation_new [of "[''a'', ''b'']"]
      diagonal_Evaluation_new [of "[''a'', ''b'']"]
      true_positives_Evaluation_new [of "[''a'', ''b'']"]
    by (simp add: two_labels_def)
  then show ?thesis
    by (simp add: append_eval_def div_by_float_simps)
qed

end
